theory Spec2Isabelle
  imports Complex_Main "HOL-Library.Sublist"
begin

unbundle bit_operations_syntax

section \<open>Python strings\<close>

text \<open>
  A Python \<open>str\<close> is a sequence of Unicode code points, so a string is a list of
  code points (natural numbers) and its length counts code points. String literals of
  the source are written with \<open>lit\<close>; a character outside ASCII is given by its code
  point.
\<close>

type_synonym codepoint = nat
type_synonym pystr = "codepoint list"

definition lit :: "string \<Rightarrow> pystr" where
  "lit s = map of_char s"

text \<open>
  Every code point of a \<open>str\<close> is below \<open>0x110000\<close>. A \<open>str\<close> may hold surrogate
  code points (\<open>0xD800..0xDBFF\<close> high, \<open>0xDC00..0xDFFF\<close> low); in well-formed
  Unicode text there are none.
\<close>

definition is_str :: "pystr \<Rightarrow> bool" where
  "is_str s \<longleftrightarrow> list_all (\<lambda>c. c < 1114112) s"

definition is_high_surrogate :: "codepoint \<Rightarrow> bool" where
  "is_high_surrogate c \<longleftrightarrow> 55296 \<le> c \<and> c \<le> 56319"

definition is_low_surrogate :: "codepoint \<Rightarrow> bool" where
  "is_low_surrogate c \<longleftrightarrow> 56320 \<le> c \<and> c \<le> 57343"

text \<open>No high surrogate of the string is directly followed by a low surrogate.\<close>

fun no_surrogate_pair :: "pystr \<Rightarrow> bool" where
  "no_surrogate_pair (c # d # s) \<longleftrightarrow>
     \<not> (is_high_surrogate c \<and> is_low_surrogate d) \<and> no_surrogate_pair (d # s)"
| "no_surrogate_pair _ \<longleftrightarrow> True"

text \<open>
  A string can be encoded in UTF-8 when each of its code points is a Unicode scalar
  value, that is, when it holds no surrogate.
\<close>

definition scalar_value :: "codepoint \<Rightarrow> bool" where
  "scalar_value c \<longleftrightarrow> c < 55296 \<or> (57344 \<le> c \<and> c < 1114112)"

definition well_formed :: "pystr \<Rightarrow> bool" where
  "well_formed s \<longleftrightarrow> list_all scalar_value s"

text \<open>\<open>sep.join(xs)\<close>\<close>

fun str_join :: "pystr \<Rightarrow> pystr list \<Rightarrow> pystr" where
  "str_join sep [] = []"
| "str_join sep [x] = x"
| "str_join sep (x # y # ys) = x @ sep @ str_join sep (y # ys)"

text \<open>\<open>s.split('\n')\<close>: the lines of a text.\<close>

fun split_lines :: "pystr \<Rightarrow> pystr list" where
  "split_lines [] = [[]]"
| "split_lines (c # cs) =
     (if c = 10 then [] # split_lines cs
      else (case split_lines cs of
              [] \<Rightarrow> [[c]]
            | l # ls \<Rightarrow> (c # l) # ls))"

section \<open>The \<open>json\<close> module on lists of strings\<close>

text \<open>
  \<open>create_recipe\<close> stores \<open>json.dumps(recipe.ingredients)\<close> and both handlers read
  the column back with \<open>json.loads\<close>. \<open>json.dumps\<close> is called with its defaults
  (\<open>ensure_ascii=True\<close>, item separator \<open>", "\<close>) on a list of strings.

  \<open>'{0:04x}'.format(n)\<close> for \<open>n < 0x10000\<close>: four lower-case hexadecimal digits.
\<close>

definition hexdigit :: "nat \<Rightarrow> codepoint" where
  "hexdigit d = (if d < 10 then 48 + d else 87 + d)"

definition hex4 :: "nat \<Rightarrow> pystr" where
  "hex4 n = [hexdigit (n div 4096 mod 16), hexdigit (n div 256 mod 16),
             hexdigit (n div 16 mod 16), hexdigit (n mod 16)]"

text \<open>
  The replacement of one character in \<open>py_encode_basestring_ascii\<close>: the quote, the
  backslash and the five named control characters have two-character escapes,
  printable ASCII stands for itself, every other character of the basic plane is
  \<open>\uXXXX\<close>, and a character beyond it is a surrogate pair
  (\<open>n -= 0x10000; s1 = 0xd800 | ((n >> 10) & 0x3ff); s2 = 0xdc00 | (n & 0x3ff)\<close>).
\<close>

definition escape_char :: "codepoint \<Rightarrow> pystr" where
  "escape_char c =
     (if c = 34 then [92, 34]
      else if c = 92 then [92, 92]
      else if c = 10 then [92, 110]
      else if c = 13 then [92, 114]
      else if c = 9 then [92, 116]
      else if c = 12 then [92, 102]
      else if c = 8 then [92, 98]
      else if 32 \<le> c \<and> c \<le> 126 then [c]
      else if c < 65536 then [92, 117] @ hex4 c
      else (let n = c - 65536;
                s1 = 55296 OR (drop_bit 10 n AND 1023);
                s2 = 56320 OR (n AND 1023)
            in [92, 117] @ hex4 s1 @ [92, 117] @ hex4 s2))"

definition encode_basestring_ascii :: "pystr \<Rightarrow> pystr" where
  "encode_basestring_ascii s = [34] @ concat (map escape_char s) @ [34]"

definition json_dumps :: "pystr list \<Rightarrow> pystr" where
  "json_dumps xs = [91] @ str_join [44, 32] (map encode_basestring_ascii xs) @ [93]"

text \<open>
  The decoder. \<open>decode_uXXXX\<close> reads the four hexadecimal digits (either case) that
  follow \<open>\u\<close>; \<open>backslash\<close> is the table of the one-character escapes.
\<close>

definition hexval :: "codepoint \<Rightarrow> nat option" where
  "hexval c =
     (if 48 \<le> c \<and> c \<le> 57 then Some (c - 48)
      else if 97 \<le> c \<and> c \<le> 102 then Some (c - 87)
      else if 65 \<le> c \<and> c \<le> 70 then Some (c - 55)
      else None)"

fun decode_uXXXX :: "pystr \<Rightarrow> nat option" where
  "decode_uXXXX (a # b # c # d # _) =
     (case (hexval a, hexval b, hexval c, hexval d) of
        (Some w, Some x, Some y, Some z) \<Rightarrow> Some (w * 4096 + x * 256 + y * 16 + z)
      | _ \<Rightarrow> None)"
| "decode_uXXXX _ = None"

definition backslash :: "codepoint \<Rightarrow> codepoint option" where
  "backslash e =
     (if e = 34 then Some 34
      else if e = 92 then Some 92
      else if e = 47 then Some 47
      else if e = 98 then Some 8
      else if e = 102 then Some 12
      else if e = 110 then Some 10
      else if e = 114 then Some 13
      else if e = 116 then Some 9
      else None)"

definition emit :: "codepoint \<Rightarrow> (pystr \<times> pystr) option \<Rightarrow> (pystr \<times> pystr) option" where
  "emit c r = (case r of None \<Rightarrow> None | Some (s, rest) \<Rightarrow> Some (c # s, rest))"

text \<open>
  \<open>py_scanstring\<close> (strict mode), started after the opening quote: the decoded string
  and the text after the closing quote, or \<open>None\<close> where the decoder raises
  (unterminated string, control character, invalid escape). A \<open>\uXXXX\<close> escape in the
  high-surrogate range that is followed by a second \<open>\uXXXX\<close> escape in the
  low-surrogate range is joined with it into one character.
\<close>

function scanstring :: "pystr \<Rightarrow> (pystr \<times> pystr) option" where
  "scanstring [] = None"
| "scanstring (c # cs) =
    (if c = 34 then Some ([], cs)
     else if c = 92 then
       (case cs of
          [] \<Rightarrow> None
        | e # es \<Rightarrow>
            if e = 117 then
              (case decode_uXXXX es of
                 None \<Rightarrow> None
               | Some uni \<Rightarrow>
                   if 55296 \<le> uni \<and> uni \<le> 56319 \<and> take 2 (drop 4 es) = [92, 117] then
                     (case decode_uXXXX (drop 6 es) of
                        None \<Rightarrow> None
                      | Some uni2 \<Rightarrow>
                          if 56320 \<le> uni2 \<and> uni2 \<le> 57343 then
                            emit (65536 + (push_bit 10 (uni - 55296) OR (uni2 - 56320)))
                              (scanstring (drop 10 es))
                          else emit uni (scanstring (drop 4 es)))
                   else emit uni (scanstring (drop 4 es)))
            else (case backslash e of
                    None \<Rightarrow> None
                  | Some ch \<Rightarrow> emit ch (scanstring es)))
     else if c < 32 then None
     else emit c (scanstring cs))"
  by pat_completeness auto
termination
  by (relation "measure length") auto

text \<open>The decoder's whitespace: space, tab, line feed, carriage return.\<close>

definition skip_ws :: "pystr \<Rightarrow> pystr" where
  "skip_ws s = dropWhile (\<lambda>c. c = 32 \<or> c = 9 \<or> c = 10 \<or> c = 13) s"

text \<open>
  The loop of \<open>JSONArray\<close> on an array of strings, started at the first item: an
  item, optional whitespace, then \<open>]\<close> or a comma, optional whitespace and the
  next item.
\<close>

function scan_items :: "pystr \<Rightarrow> (pystr list \<times> pystr) option" where
  "scan_items [] = None"
| "scan_items (q # body) =
     (if q \<noteq> 34 then None
      else (case scanstring body of
              None \<Rightarrow> None
            | Some (v, r) \<Rightarrow>
                (case skip_ws r of
                   [] \<Rightarrow> None
                 | d # r' \<Rightarrow>
                     if d = 93 then Some ([v], r')
                     else if d = 44 then
                       (case scan_items (skip_ws r') of
                          None \<Rightarrow> None
                        | Some (vs, r'') \<Rightarrow> Some (v # vs, r''))
                     else None)))"
  by pat_completeness auto
termination
proof -
  have shorter: "scanstring t = Some (w, u) \<Longrightarrow> length u < length t" for t w u
  proof (induction "length t" arbitrary: t w u rule: less_induct)
    case less
    have IH: "scanstring t' = Some (w', u') \<Longrightarrow> length t' < length t \<longrightarrow> length u' < length t'"
      for t' w' u'
      using less.hyps [of t' w' u'] by simp
    show ?case
    proof (cases t)
      case Nil
      with less.prems show ?thesis by simp
    next
      case (Cons c cs)
      with less.prems show ?thesis
        by (auto simp: emit_def split: if_splits list.splits option.splits
            dest!: IH)
    qed
  qed
  have ws: "length (skip_ws t) \<le> length t" for t
    by (simp add: skip_ws_def length_dropWhile_le)
  show ?thesis
    apply (relation "measure length")
     apply simp
    subgoal for q body x2 v r d r'
      using shorter [of body v r] ws [of r] ws [of r']
      by simp
    done
qed

text \<open>
  What the decoder makes of an encoded string: each high surrogate directly followed
  by a low surrogate has become the one character the two encode.
\<close>

fun rejoin :: "pystr \<Rightarrow> pystr" where
  "rejoin (c # d # s) =
     (if is_high_surrogate c \<and> is_low_surrogate d
      then (65536 + (push_bit 10 (c - 55296) OR (d - 56320))) # rejoin s
      else c # rejoin (d # s))"
| "rejoin [c] = [c]"
| "rejoin [] = []"

section \<open>Exceptions and results\<close>

text \<open>
  An exception raised inside the \<open>try\<close> block of the suggestion handler: whether it
  is an instance of \<open>Exception\<close> (what \<open>except Exception\<close> catches;
  \<open>KeyboardInterrupt\<close> and \<open>SystemExit\<close> are not) and its \<open>str()\<close>.
\<close>

datatype raised = Raised (is_Exception: bool) (message: pystr)

text \<open>
  How a handler fails: the \<open>HTTPException\<close> it raises (status code and detail), the
  \<open>JSONDecodeError\<close> of \<open>json.loads\<close> and the \<open>UnicodeEncodeError\<close> and
  \<open>OverflowError\<close> of the database driver, which no handler catches, or an
  exception that \<open>except Exception\<close> lets through.
\<close>

datatype failure =
    HTTPException nat pystr
  | JSONDecodeError
  | UnicodeEncodeError
  | OverflowError
  | Propagated raised

definition finish :: "pystr list \<Rightarrow> pystr \<Rightarrow> failure + pystr list" where
  "finish vs r = (if skip_ws r = [] then Inr vs else Inl JSONDecodeError)"

text \<open>
  \<open>json.loads\<close> on the text of the \<open>ingredients\<close> column: leading whitespace, an
  array of strings, trailing whitespace and nothing more. A text that is not a JSON
  array of strings is a failure of the request: \<open>json.loads\<close> raises, or the value
  it returns is refused by the response model \<open>List[str]\<close>.
\<close>

definition json_loads :: "pystr \<Rightarrow> failure + pystr list" where
  "json_loads s =
     (case skip_ws s of
        [] \<Rightarrow> Inl JSONDecodeError
      | b # r \<Rightarrow>
          if b \<noteq> 91 then Inl JSONDecodeError
          else (case skip_ws r of
                  [] \<Rightarrow> Inl JSONDecodeError
                | c # r' \<Rightarrow>
                    if c = 93 then finish [] r'
                    else (case scan_items (skip_ws r) of
                            None \<Rightarrow> Inl JSONDecodeError
                          | Some (vs, r'') \<Rightarrow> finish vs r'')))"

section \<open>Schemas and the \<open>recipes\<close> table\<close>

text \<open>
  \<open>RecipeBase\<close> (and \<open>RecipeCreate\<close>, which adds nothing) and \<open>Recipe\<close>, which adds
  the \<open>id\<close>; \<open>IngredientList\<close> has the single field \<open>ingredients\<close> and is the list
  itself.
\<close>

record RecipeBase =
  name :: pystr
  ingredients :: "pystr list"
  steps :: pystr

type_synonym RecipeCreate = RecipeBase

record Recipe = RecipeBase +
  id' :: int

type_synonym IngredientList = "pystr list"

text \<open>
  A row of the table \<open>recipes\<close> (class \<open>RecipeDB\<close>): the integer primary key and
  three text columns, \<open>ingredients\<close> holding the serialized list. The table is the
  list of its committed rows in the order \<open>db.query(RecipeDB).all()\<close> returns them
  (rowid order, which is insertion order here).
\<close>

record RecipeDB =
  row_id :: int
  row_name :: pystr
  row_ingredients :: pystr
  row_steps :: pystr

type_synonym table = "RecipeDB list"

text \<open>
  The key SQLite gives a row inserted without one into an \<open>INTEGER PRIMARY KEY\<close>
  column: one more than the largest key in the table, 1 in an empty table.
\<close>

definition next_rowid :: "table \<Rightarrow> int" where
  "next_rowid db =
     (case db of
        [] \<Rightarrow> 1
      | r # rs \<Rightarrow> fold max (map row_id rs) (row_id r) + 1)"

text \<open>
  An SQLite \<open>INTEGER\<close> is a signed 64-bit integer; a Python \<open>int\<close> is unbounded.
\<close>

definition is_int64 :: "int \<Rightarrow> bool" where
  "is_int64 k \<longleftrightarrow> - 9223372036854775808 \<le> k \<and> k \<le> 9223372036854775807"

section \<open>CRUD routes\<close>

text \<open>
  Every handler takes the committed table and returns its result with the table
  after the request. Attribute assignments to loaded objects
  (\<open>r.ingredients = json.loads(r.ingredients)\<close>) are never flushed: the session has
  \<open>autoflush=False\<close> and is closed without a further commit.

  \<open>get_recipes\<close>: the loop replaces the text of each row by the decoded list; the
  first row whose text does not decode fails the request.
\<close>

definition to_recipe :: "RecipeDB \<Rightarrow> pystr list \<Rightarrow> Recipe" where
  "to_recipe r ings =
     \<lparr>name = row_name r, ingredients = ings, steps = row_steps r, id' = row_id r\<rparr>"

fun load_all :: "table \<Rightarrow> failure + Recipe list" where
  "load_all [] = Inr []"
| "load_all (r # rs) =
     (case json_loads (row_ingredients r) of
        Inl e \<Rightarrow> Inl e
      | Inr ings \<Rightarrow>
          (case load_all rs of
             Inl e \<Rightarrow> Inl e
           | Inr out \<Rightarrow> Inr (to_recipe r ings # out)))"

definition get_recipes :: "table \<Rightarrow> (failure + Recipe list) \<times> table" where
  "get_recipes db = (load_all db, db)"

text \<open>
  \<open>create_recipe\<close>: the row is added and committed, then its text is decoded for
  the response. The commit sends the three texts to SQLite as UTF-8: the driver raises
  \<open>UnicodeEncodeError\<close> on a text with a surrogate, and then nothing is stored.
\<close>

definition storable :: "RecipeDB \<Rightarrow> bool" where
  "storable r \<longleftrightarrow>
     well_formed (row_name r) \<and> well_formed (row_ingredients r) \<and> well_formed (row_steps r)"

definition create_recipe :: "RecipeCreate \<Rightarrow> table \<Rightarrow> (failure + Recipe) \<times> table" where
  "create_recipe recipe db =
     (let db_recipe = \<lparr>row_id = next_rowid db,
                       row_name = name recipe,
                       row_ingredients = json_dumps (ingredients recipe),
                       row_steps = steps recipe\<rparr>
      in if \<not> storable db_recipe then (Inl UnicodeEncodeError, db)
         else (let db' = db @ [db_recipe]
               in (case json_loads (row_ingredients db_recipe) of
                     Inl e \<Rightarrow> (Inl e, db')
                   | Inr ings \<Rightarrow> (Inr (to_recipe db_recipe ings), db'))))"

text \<open>
  \<open>delete_recipe\<close>: the query binds \<open>recipe_id\<close> as an SQLite \<open>INTEGER\<close>, and
  the driver raises \<open>OverflowError\<close> on an id outside the signed 64-bit range, before
  any row is looked up. Otherwise: the first row with the key, 404 when there is none;
  else \<open>db.delete\<close> and the commit remove the rows with the key of that object. The
  response body \<open>{"message": ...}\<close> is its message.
\<close>

definition delete_recipe :: "int \<Rightarrow> table \<Rightarrow> (failure + pystr) \<times> table" where
  "delete_recipe recipe_id db =
     (if \<not> is_int64 recipe_id then (Inl OverflowError, db)
      else (case find (\<lambda>r. row_id r = recipe_id) db of
              None \<Rightarrow> (Inl (HTTPException 404 (lit ''Recipe not found'')), db)
            | Some db_recipe \<Rightarrow>
                (Inr (lit ''Recipe deleted successfully''),
                 filter (\<lambda>r. row_id r \<noteq> row_id db_recipe) db)))"

section \<open>The suggestion route\<close>

text \<open>
  What the handler takes from outside the program: the value of
  \<open>os.getenv("GROQ_API_KEY")\<close>, the behaviour of \<open>client.chat.completions.create\<close>
  (it raises, or returns a completion, given here by the \<open>message.content\<close> of its
  choices), the number the random generator draws for \<open>random.choice\<close>, and
  \<open>str.capitalize\<close>, whose Unicode case tables belong to the interpreter.
\<close>

record completion_request =
  model :: pystr
  messages :: "(pystr \<times> pystr) list"
  temperature :: real

type_synonym ChatCompletion = "pystr option list"

record env =
  GROQ_API_KEY :: "pystr option"
  chat_completions_create :: "completion_request \<Rightarrow> raised + ChatCompletion"
  random_draw :: nat
  str_capitalize :: "pystr \<Rightarrow> pystr"

text \<open>What a request does besides answering: the calls sent to the provider and the lines printed.\<close>

record effects =
  outbound :: "completion_request list"
  printed :: "pystr list"

definition AI_SYSTEM_PROMPT :: pystr where
  "AI_SYSTEM_PROMPT = [10] @ concat (map (\<lambda>l. lit l @ [10])
     [''You are a creative executive chef. Your specialty is turning simple ingredients into diverse, restaurant-quality home meals.'',
      ''Respond strictly in this format:'',
      ''Recipe Name: [Name]'',
      ''Ingredients:'',
      ''- [Ingredient 1]'',
      ''- [Ingredient 2]'',
      ''Preparation Steps (step by step):'',
      ''1. [Step 1]'',
      ''2. [Step 2]''])"

definition styles :: "pystr list" where
  "styles = [lit ''Roasted'', lit ''Pan-Seared'', lit ''Gourmet'',
             lit ''Chef'' @ [39] @ lit ''s Special'']"

text \<open>
  \<open>random.choice(seq)\<close> returns \<open>seq[i]\<close> for a random index \<open>i\<close> below
  \<open>len(seq)\<close>; the index is taken from the number drawn. Its only call is on the
  four \<open>styles\<close>.
\<close>

definition random_choice :: "nat \<Rightarrow> pystr list \<Rightarrow> pystr" where
  "random_choice r seq = seq ! (r mod length seq)"

definition fallback_text :: "pystr \<Rightarrow> pystr \<Rightarrow> pystr \<Rightarrow> pystr" where
  "fallback_text style main_ing user_ingredients =
     lit ''Recipe Name: '' @ style @ lit '' '' @ main_ing @ lit '' (Local Chef Mode)'' @ [10, 10]
     @ lit ''Note: [AI Service Busy - Using Local Intelligence]'' @ [10, 10]
     @ lit ''Preparation Steps (step by step):'' @ [10]
     @ lit ''1. Prepare your '' @ user_ingredients @ lit ''.'' @ [10]
     @ lit ''2. Saut'' @ [233] @ lit '' in a hot pan with oil until tender.'' @ [10]
     @ lit ''3. Season to taste and serve beautifully.'' @ [10]"

definition completion_request_for :: "pystr \<Rightarrow> completion_request" where
  "completion_request_for user_ingredients =
     \<lparr>model = lit ''llama3-8b-8192'',
      messages = [(lit ''system'', AI_SYSTEM_PROMPT),
                  (lit ''user'', lit ''Ingredients: '' @ user_ingredients)],
      temperature = 0.8\<rparr>"

text \<open>
  \<open>suggest_ai_recipe\<close>. The session \<open>db\<close> is a parameter of the handler. Inside
  the \<open>try\<close> block the call may raise, and \<open>response.choices[0]\<close> raises
  \<open>IndexError\<close> on a completion without choices; \<open>message.content\<close> may be
  \<open>None\<close>, which is returned as it is. \<open>print\<close> adds a line to the output and is
  taken to succeed.
\<close>

definition suggest_ai_recipe ::
  "env \<Rightarrow> IngredientList \<Rightarrow> table \<Rightarrow> (failure + pystr option) \<times> effects \<times> table" where
  "suggest_ai_recipe env data db =
     (let user_ingredients = str_join (lit '', '') data;
          api_key = GROQ_API_KEY env
      in if api_key = None \<or> api_key = Some [] then
           (Inl (HTTPException 400 (lit ''GROQ API Key is missing in environment variables.'')),
            \<lparr>outbound = [], printed = []\<rparr>, db)
         else
           (let request = completion_request_for user_ingredients;
                attempt =
                  (case chat_completions_create env request of
                     Inl e \<Rightarrow> Inl e
                   | Inr choices \<Rightarrow>
                       (case choices of
                          [] \<Rightarrow> Inl (Raised True (lit ''list index out of range''))
                        | content # _ \<Rightarrow> Inr content))
            in (case attempt of
                  Inr recipe_text \<Rightarrow>
                    (Inr recipe_text, \<lparr>outbound = [request], printed = []\<rparr>, db)
                | Inl e \<Rightarrow>
                    if is_Exception e then
                      (let style = random_choice (random_draw env) styles;
                           main_ing = (case data of
                                         [] \<Rightarrow> lit ''Vegetable''
                                       | first # _ \<Rightarrow> str_capitalize env first)
                       in (Inr (Some (fallback_text style main_ing user_ingredients)),
                           \<lparr>outbound = [request],
                            printed = [lit ''AI Error: '' @ message e]\<rparr>, db))
                    else (Inl (Propagated e), \<lparr>outbound = [request], printed = []\<rparr>, db))))"

text \<open>
  The fallback path is taken when a credential is configured and the \<open>try\<close> block
  raises an instance of \<open>Exception\<close>.
\<close>

definition try_block_raises :: "env \<Rightarrow> IngredientList \<Rightarrow> raised \<Rightarrow> bool" where
  "try_block_raises env data e \<longleftrightarrow>
     (case chat_completions_create env (completion_request_for (str_join (lit '', '') data)) of
        Inl e' \<Rightarrow> e' = e
      | Inr choices \<Rightarrow> choices = [] \<and> e = Raised True (lit ''list index out of range''))"

definition credential_configured :: "env \<Rightarrow> bool" where
  "credential_configured env \<longleftrightarrow> GROQ_API_KEY env \<noteq> None \<and> GROQ_API_KEY env \<noteq> Some []"

section \<open>Requests in sequence\<close>

datatype request =
    CreateRecipe RecipeCreate
  | DeleteRecipe int
  | GetRecipes
  | SuggestAiRecipe env IngredientList

fun handle :: "request \<Rightarrow> table \<Rightarrow> table" where
  "handle (CreateRecipe recipe) db = snd (create_recipe recipe db)"
| "handle (DeleteRecipe recipe_id) db = snd (delete_recipe recipe_id db)"
| "handle GetRecipes db = snd (get_recipes db)"
| "handle (SuggestAiRecipe env data) db = snd (snd (suggest_ai_recipe env data db))"

definition serve :: "request list \<Rightarrow> table \<Rightarrow> table" where
  "serve reqs db = fold handle reqs db"

section \<open>Reading the fallback text\<close>

text \<open>
  A numbered step is a line that starts with decimal digits followed by a full stop
  and a space. The steps of a text are the numbered lines that follow its first line
  \<open>Preparation Steps (step by step):\<close>.
\<close>

definition is_digit :: "codepoint \<Rightarrow> bool" where
  "is_digit c \<longleftrightarrow> 48 \<le> c \<and> c \<le> 57"

definition numbered_step :: "pystr \<Rightarrow> bool" where
  "numbered_step l \<longleftrightarrow>
     takeWhile is_digit l \<noteq> [] \<and> take 2 (dropWhile is_digit l) = [46, 32]"

definition steps_header :: pystr where
  "steps_header = lit ''Preparation Steps (step by step):''"

definition preparation_steps :: "pystr \<Rightarrow> pystr list option" where
  "preparation_steps t =
     (case dropWhile (\<lambda>l. l \<noteq> steps_header) (split_lines t) of
        [] \<Rightarrow> None
      | h # ls \<Rightarrow> Some (filter numbered_step ls))"

text \<open>
  The three step lines of the fallback template, and the headline ingredient of a
  request (\<open>main_ing\<close> of the handler).
\<close>

definition step_lines :: "pystr \<Rightarrow> pystr list" where
  "step_lines user_ingredients =
     [lit ''1. Prepare your '' @ user_ingredients @ lit ''.'',
      lit ''2. Saut'' @ [233] @ lit '' in a hot pan with oil until tender.'',
      lit ''3. Season to taste and serve beautifully.'']"

definition main_ingredient :: "env \<Rightarrow> IngredientList \<Rightarrow> pystr" where
  "main_ingredient env data =
     (case data of [] \<Rightarrow> lit ''Vegetable'' | first # _ \<Rightarrow> str_capitalize env first)"

text \<open>\<open>str.capitalize\<close> on an ASCII string, the case mapping of the worked examples.\<close>

definition ascii_upper :: "codepoint \<Rightarrow> codepoint" where
  "ascii_upper c = (if 97 \<le> c \<and> c \<le> 122 then c - 32 else c)"

definition ascii_lower :: "codepoint \<Rightarrow> codepoint" where
  "ascii_lower c = (if 65 \<le> c \<and> c \<le> 90 then c + 32 else c)"

definition ascii_capitalize :: "pystr \<Rightarrow> pystr" where
  "ascii_capitalize s = (case s of [] \<Rightarrow> [] | c # cs \<Rightarrow> ascii_upper c # map ascii_lower cs)"

section \<open>Worked examples\<close>

text \<open>The example of the specification: the recipe \<open>Soup\<close>, its row and its record.\<close>

definition soup :: RecipeCreate where
  "soup = \<lparr>name = lit ''Soup'', ingredients = [lit ''carrot'', lit ''onion''], steps = lit ''Boil.''\<rparr>"

definition soup_row :: RecipeDB where
  "soup_row = \<lparr>row_id = 1, row_name = lit ''Soup'',
               row_ingredients = lit ''[\"carrot\", \"onion\"]'', row_steps = lit ''Boil.''\<rparr>"

definition soup_recipe :: Recipe where
  "soup_recipe = \<lparr>name = lit ''Soup'', ingredients = [lit ''carrot'', lit ''onion''],
                  steps = lit ''Boil.'', id' = 1\<rparr>"

definition rice_row :: RecipeDB where
  "rice_row = \<lparr>row_id = 2, row_name = lit ''Rice'',
               row_ingredients = lit ''[\"rice\"]'', row_steps = lit ''Steam.''\<rparr>"

definition rice :: RecipeCreate where
  "rice = \<lparr>name = lit ''Rice'', ingredients = [lit ''rice''], steps = lit ''Steam.''\<rparr>"

text \<open>
  A recipe whose one ingredient is a string of two code points, a high surrogate
  followed by a low surrogate (together the UTF-16 form of \<open>U+1F600\<close>).
\<close>

definition smile :: RecipeCreate where
  "smile = \<lparr>name = lit ''Smile'', ingredients = [[55357, 56832]], steps = lit ''Grin.''\<rparr>"

definition smile_row :: RecipeDB where
  "smile_row = \<lparr>row_id = 1, row_name = lit ''Smile'',
                row_ingredients = [91, 34] @ [92] @ lit ''ud83d'' @ [92] @ lit ''ude00'' @ [34, 93],
                row_steps = lit ''Grin.''\<rparr>"

definition smile_recipe :: Recipe where
  "smile_recipe = \<lparr>name = lit ''Smile'', ingredients = [[128512]], steps = lit ''Grin.'', id' = 1\<rparr>"

text \<open>
  Environments with a credential whose provider call fails: the call raises a
  connection error, or the completion has no choices.
\<close>

definition connection_error :: raised where
  "connection_error = Raised True (lit ''Connection error.'')"

definition index_error :: raised where
  "index_error = Raised True (lit ''list index out of range'')"

definition failing_provider :: "completion_request \<Rightarrow> raised + ChatCompletion" where
  "failing_provider request = Inl connection_error"

definition example_env :: "nat \<Rightarrow> env" where
  "example_env k =
     \<lparr>GROQ_API_KEY = Some (lit ''gsk_example''),
      chat_completions_create = failing_provider,
      random_draw = k,
      str_capitalize = ascii_capitalize\<rparr>"

definition no_choices_env :: "nat \<Rightarrow> env" where
  "no_choices_env k =
     \<lparr>GROQ_API_KEY = Some (lit ''gsk_other''),
      chat_completions_create = (\<lambda>request. Inr []),
      random_draw = k,
      str_capitalize = ascii_capitalize\<rparr>"

definition no_key_env :: env where
  "no_key_env = (example_env 0)\<lparr>GROQ_API_KEY := None\<rparr>"

text \<open>Fallback texts of the examples.\<close>

definition gourmet_rice_text :: pystr where
  "gourmet_rice_text =
     lit ''Recipe Name: Gourmet Rice (Local Chef Mode)'' @ [10, 10] @
     lit ''Note: [AI Service Busy - Using Local Intelligence]'' @ [10, 10] @
     lit ''Preparation Steps (step by step):'' @ [10] @
     lit ''1. Prepare your rice, salt.'' @ [10] @
     lit ''2. Saut'' @ [233] @ lit '' in a hot pan with oil until tender.'' @ [10] @
     lit ''3. Season to taste and serve beautifully.'' @ [10]"

definition roasted_vegetable_text :: pystr where
  "roasted_vegetable_text =
     lit ''Recipe Name: Roasted Vegetable (Local Chef Mode)'' @ [10, 10] @
     lit ''Note: [AI Service Busy - Using Local Intelligence]'' @ [10, 10] @
     lit ''Preparation Steps (step by step):'' @ [10] @
     lit ''1. Prepare your .'' @ [10] @
     lit ''2. Saut'' @ [233] @ lit '' in a hot pan with oil until tender.'' @ [10] @
     lit ''3. Season to taste and serve beautifully.'' @ [10]"

definition pan_seared_rice_text :: pystr where
  "pan_seared_rice_text =
     lit ''Recipe Name: Pan-Seared Rice (Local Chef Mode)'' @ [10, 10] @
     lit ''Note: [AI Service Busy - Using Local Intelligence]'' @ [10, 10] @
     lit ''Preparation Steps (step by step):'' @ [10] @
     lit ''1. Prepare your rice.'' @ [10] @
     lit ''2. Saut'' @ [233] @ lit '' in a hot pan with oil until tender.'' @ [10] @
     lit ''3. Season to taste and serve beautifully.'' @ [10]"

definition extra_step_text :: pystr where
  "extra_step_text =
     lit ''Recipe Name: Roasted Rice (Local Chef Mode)'' @ [10, 10] @
     lit ''Note: [AI Service Busy - Using Local Intelligence]'' @ [10, 10] @
     lit ''Preparation Steps (step by step):'' @ [10] @
     lit ''1. Prepare your rice, salt'' @ [10] @
     lit ''4. Eat.'' @ [10] @
     lit ''2. Saut'' @ [233] @ lit '' in a hot pan with oil until tender.'' @ [10] @
     lit ''3. Season to taste and serve beautifully.'' @ [10]"

section \<open>The decoder on encoded strings\<close>

lemma hexval_hexdigit: "d < 16 \<Longrightarrow> hexval (hexdigit d) = Some d"
  by (auto simp: hexval_def hexdigit_def)

lemma decode_hex4: "n < 65536 \<Longrightarrow> decode_uXXXX (hex4 n @ rest) = Some n"
proof -
  assume n: "n < 65536"
  have d1: "n = n div 16 * 16 + n mod 16" by simp
  have "n div 256 = n div 16 div 16" by (simp add: div_mult2_eq)
  then have d2: "n div 16 = n div 256 * 16 + n div 16 mod 16" by simp
  have "n div 4096 = n div 256 div 16" by (simp add: div_mult2_eq)
  then have d3: "n div 256 = n div 4096 * 16 + n div 256 mod 16" by simp
  have d5: "n div 4096 < 16" using n by simp
  have "n div 4096 * 4096 + n div 256 mod 16 * 256 + n div 16 mod 16 * 16 + n mod 16 = n"
    using d1 d2 d3 by linarith
  with d5 show ?thesis
    by (simp add: hex4_def hexval_hexdigit)
qed

lemma length_hex4: "length (hex4 n) = 4"
  by (simp add: hex4_def)

lemma drop4_hex4: "drop 4 (hex4 n @ rest) = rest"
  by (simp add: hex4_def)

text \<open>The bit operations of the surrogate arithmetic, as sums.\<close>

lemma or_low_bits: "b < 2 ^ k \<Longrightarrow> push_bit k (a::nat) OR b = push_bit k a + b"
proof -
  assume b: "b < 2 ^ k"
  have "\<not> bit (push_bit k a) n \<or> \<not> bit b n" for n
    using b by (metis bit_push_bit_iff bit_take_bit_iff linorder_not_less take_bit_nat_eq_self_iff)
  then show ?thesis
    by (rule disjunctive_add [symmetric])
qed

lemma and_1023: "(x::nat) AND 1023 = x mod 1024"
proof -
  have "x AND mask 10 = x mod 2 ^ 10"
    by (simp add: take_bit_eq_mask [symmetric] take_bit_eq_mod)
  then show ?thesis by (simp add: mask_eq_exp_minus_1)
qed

lemma or_high_base: "x < 1024 \<Longrightarrow> (55296::nat) OR x = 55296 + x"
  using or_low_bits [of x 10 54] by (simp add: push_bit_eq_mult)

lemma or_low_base: "x < 1024 \<Longrightarrow> (56320::nat) OR x = 56320 + x"
  using or_low_bits [of x 10 55] by (simp add: push_bit_eq_mult)

lemma join_halves:
  "n < 1048576 \<Longrightarrow> push_bit 10 (n div 1024) OR (n mod 1024) = (n::nat)"
  using or_low_bits [of "n mod 1024" 10 "n div 1024"] by (simp add: push_bit_eq_mult)

text \<open>The four shapes of an escaped character.\<close>

lemma escape_char_cases:
  assumes "c < 1114112"
  obtains (simple) e where "escape_char c = [92, e]" "e \<noteq> 117" "backslash e = Some c"
  | (plain) "escape_char c = [c]" "32 \<le> c" "c \<noteq> 34" "c \<noteq> 92"
  | (bmp) "escape_char c = [92, 117] @ hex4 c" "c < 65536"
  | (astral) "escape_char c = [92, 117] @ hex4 (55296 + (c - 65536) div 1024) @
           [92, 117] @ hex4 (56320 + (c - 65536) mod 1024)" "65536 \<le> c"
proof -
  consider (a) "c \<in> {34, 92, 10, 13, 9, 12, 8}"
    | (b) "c \<notin> {34, 92, 10, 13, 9, 12, 8}" "32 \<le> c" "c \<le> 126"
    | (c) "c \<notin> {34, 92, 10, 13, 9, 12, 8}" "\<not> (32 \<le> c \<and> c \<le> 126)" "c < 65536"
    | (d) "65536 \<le> c"
    by fastforce
  then show thesis
  proof cases
    case a
    then show ?thesis
      by (intro simple [of "hd (tl (escape_char c))"])
         (auto simp: escape_char_def backslash_def)
  next
    case b
    then show ?thesis by (intro plain) (auto simp: escape_char_def)
  next
    case c
    then show ?thesis by (intro bmp) (auto simp: escape_char_def)
  next
    case d
    have n: "c - 65536 < 1048576" using assms by simp
    then have q: "(c - 65536) div 1024 < 1024" by simp
    have s1: "55296 OR (drop_bit 10 (c - 65536) AND 1023) = 55296 + (c - 65536) div 1024"
      using q by (simp add: and_1023 drop_bit_eq_div or_high_base)
    have s2: "56320 OR ((c - 65536) AND 1023) = 56320 + (c - 65536) mod 1024"
      by (simp add: and_1023 or_low_base)
    show ?thesis
      using d by (intro astral) (simp_all add: escape_char_def Let_def s1 s2)
  qed
qed

lemma escape_char_surrogate:
  "is_high_surrogate c \<or> is_low_surrogate c \<Longrightarrow> escape_char c = [92, 117] @ hex4 c"
  by (auto simp: escape_char_def is_high_surrogate_def is_low_surrogate_def)

text \<open>One step of the scanner on each shape.\<close>

lemma scanstring_bmp:
  assumes "c < 65536" and "\<not> is_high_surrogate c"
  shows "scanstring ([92, 117] @ hex4 c @ rest) = emit c (scanstring rest)"
  using assms by (auto simp: decode_hex4 length_hex4 is_high_surrogate_def)

lemma scanstring_surrogates:
  assumes "is_high_surrogate h" and "is_low_surrogate l"
  shows "scanstring ([92, 117] @ hex4 h @ [92, 117] @ hex4 l @ rest)
           = emit (65536 + (push_bit 10 (h - 55296) OR (l - 56320))) (scanstring rest)"
proof -
  let ?es = "hex4 h @ [92, 117] @ hex4 l @ rest"
  have hi: "55296 \<le> h \<and> h \<le> 56319" "h < 65536"
    using assms(1) by (simp_all add: is_high_surrogate_def)
  have lo: "56320 \<le> l \<and> l \<le> 57343" "l < 65536"
    using assms(2) by (simp_all add: is_low_surrogate_def)
  have d1: "decode_uXXXX ?es = Some h" using hi(2) by (rule decode_hex4)
  have d2: "drop 4 ?es = [92, 117] @ hex4 l @ rest" by (rule drop4_hex4)
  have d3: "drop 6 ?es = hex4 l @ rest" by (simp add: hex4_def)
  have d4: "decode_uXXXX (drop 6 ?es) = Some l" unfolding d3 using lo(2) by (rule decode_hex4)
  have d5: "drop 10 ?es = rest" by (simp add: hex4_def)
  have d6: "take 2 (drop 4 ?es) = [92, 117]" unfolding d2 by simp
  have "scanstring (92 # 117 # ?es)
      = emit (65536 + (push_bit 10 (h - 55296) OR (l - 56320))) (scanstring rest)"
    apply (subst scanstring.simps)
    apply (simp only: d1 d4 d5 d6 hi(1) lo(1) option.case list.case if_True if_False simp_thms)
    apply simp
    done
  then show ?thesis by simp
qed

lemma scanstring_astral:
  assumes "65536 \<le> c" and "c < 1114112"
  shows "scanstring ([92, 117] @ hex4 (55296 + (c - 65536) div 1024) @
           [92, 117] @ hex4 (56320 + (c - 65536) mod 1024) @ rest) = emit c (scanstring rest)"
proof -
  let ?n = "c - 65536"
  have n: "?n < 1048576" using assms by simp
  then have q: "?n div 1024 < 1024" by simp
  have hi: "is_high_surrogate (55296 + ?n div 1024)"
    using q by (simp add: is_high_surrogate_def)
  have lo: "is_low_surrogate (56320 + ?n mod 1024)"
    by (simp add: is_low_surrogate_def)
  have "65536 + (push_bit 10 (55296 + ?n div 1024 - 55296) OR (56320 + ?n mod 1024 - 56320)) = c"
    using join_halves [OF n] assms by simp
  with scanstring_surrogates [OF hi lo, of rest] show ?thesis by simp
qed

lemma scanstring_lone_high:
  assumes "is_high_surrogate c"
    and "take 2 R = [92, 117] \<Longrightarrow>
           \<exists>u2. decode_uXXXX (drop 2 R) = Some u2 \<and> \<not> is_low_surrogate u2"
  shows "scanstring ([92, 117] @ hex4 c @ R) = emit c (scanstring R)"
proof -
  let ?es = "hex4 c @ R"
  have c: "c < 65536" using assms(1) by (simp add: is_high_surrogate_def)
  have d1: "decode_uXXXX ?es = Some c" using c by (rule decode_hex4)
  have d2: "drop 4 ?es = R" by (rule drop4_hex4)
  have d3: "drop 6 ?es = drop 2 R" by (simp add: hex4_def)
  show ?thesis
  proof (cases "take 2 R = [92, 117]")
    case True
    with assms(2) obtain u2 where u2: "decode_uXXXX (drop 2 R) = Some u2" "\<not> is_low_surrogate u2"
      by blast
    have nl: "\<not> (56320 \<le> u2 \<and> u2 \<le> 57343)"
      using u2(2) by (simp add: is_low_surrogate_def)
    have hb: "55296 \<le> c \<and> c \<le> 56319"
      using assms(1) by (simp add: is_high_surrogate_def)
    have "scanstring (92 # 117 # ?es) = emit c (scanstring R)"
      apply (subst scanstring.simps)
      apply (simp only: d1 d2 d3 u2(1) True nl hb option.case list.case if_True if_False simp_thms)
      apply simp
      done
    then show ?thesis by simp
  next
    case False
    have "scanstring (92 # 117 # ?es) = emit c (scanstring R)"
      apply (subst scanstring.simps)
      using False
      apply (simp only: d1 d2 option.case list.case if_True if_False simp_thms)
      apply simp
      done
    then show ?thesis by simp
  qed
qed

text \<open>
  An escaped character that is not a low surrogate never starts with the escape of a
  low surrogate.
\<close>

lemma escape_head_not_low:
  assumes "d < 1114112" and "\<not> is_low_surrogate d"
    and "take 2 (escape_char d @ X) = [92, 117]"
  shows "\<exists>u2. decode_uXXXX (drop 2 (escape_char d @ X)) = Some u2 \<and> \<not> is_low_surrogate u2"
  using assms(1)
proof (cases d rule: escape_char_cases)
  case (simple e)
  with assms(3) show ?thesis by simp
next
  case plain
  with assms(3) show ?thesis by simp
next
  case bmp
  then show ?thesis using assms(2) by (simp add: decode_hex4)
next
  case astral
  have "(d - 65536) div 1024 < 1024" using assms(1) by simp
  then have "55296 + (d - 65536) div 1024 < 65536" "\<not> is_low_surrogate (55296 + (d - 65536) div 1024)"
    by (simp_all add: is_low_surrogate_def)
  then show ?thesis using astral(1) by (simp add: decode_hex4)
qed

lemma scanstring_escape_char:
  assumes "c < 1114112"
    and "is_high_surrogate c \<Longrightarrow> take 2 R = [92, 117] \<Longrightarrow>
           \<exists>u2. decode_uXXXX (drop 2 R) = Some u2 \<and> \<not> is_low_surrogate u2"
  shows "scanstring (escape_char c @ R) = emit c (scanstring R)"
  using assms(1)
proof (cases c rule: escape_char_cases)
  case (simple e)
  then show ?thesis by simp
next
  case plain
  then show ?thesis by simp
next
  case bmp
  show ?thesis
  proof (cases "is_high_surrogate c")
    case True
    then show ?thesis
      using scanstring_lone_high [of c R] assms(2) bmp(1) by simp
  next
    case False
    then show ?thesis
      using scanstring_bmp [of c R] bmp by simp
  qed
next
  case astral
  then show ?thesis
    using scanstring_astral [of c R] assms(1) by simp
qed

text \<open>
  The scanner returns an encoded string with its surrogate pairs joined, and so the
  string itself when it has no such pair.
\<close>

lemma rejoin_no_pair: "no_surrogate_pair s \<Longrightarrow> rejoin s = s"
  by (induction s rule: rejoin.induct) auto

lemma scanstring_escaped:
  "is_str s \<Longrightarrow> scanstring (concat (map escape_char s) @ 34 # rest) = Some (rejoin s, rest)"
proof (induction s rule: rejoin.induct)
  case (1 c d s)
  let ?R = "concat (map escape_char s) @ 34 # rest"
  from "1.prems" have c: "c < 1114112" and d: "d < 1114112" and s: "is_str s" and ds: "is_str (d # s)"
    by (simp_all add: is_str_def)
  show ?case
  proof (cases "is_high_surrogate c \<and> is_low_surrogate d")
    case True
    then have "scanstring (escape_char c @ escape_char d @ ?R)
        = emit (65536 + (push_bit 10 (c - 55296) OR (d - 56320))) (scanstring ?R)"
      using scanstring_surrogates [of c d ?R] by (simp add: escape_char_surrogate)
    moreover have "rejoin (c # d # s) = (65536 + (push_bit 10 (c - 55296) OR (d - 56320))) # rejoin s"
      using True by simp
    ultimately show ?thesis
      using "1.IH"(1) [OF True s] by (simp add: emit_def del: rejoin.simps)
  next
    case False
    have "\<exists>u2. decode_uXXXX (drop 2 (escape_char d @ ?R)) = Some u2 \<and> \<not> is_low_surrogate u2"
      if "is_high_surrogate c" and "take 2 (escape_char d @ ?R) = [92, 117]"
      using that False by (intro escape_head_not_low d) simp_all
    then have "scanstring (escape_char c @ escape_char d @ ?R)
        = emit c (scanstring (escape_char d @ ?R))"
      by (intro scanstring_escape_char c)
    moreover have "rejoin (c # d # s) = c # rejoin (d # s)"
      using False by auto
    ultimately show ?thesis
      using "1.IH"(2) [OF False ds] by (simp add: emit_def del: rejoin.simps)
  qed
next
  case (2 v)
  then have v: "v < 1114112" by (simp add: is_str_def)
  have "scanstring (escape_char v @ 34 # rest) = emit v (scanstring (34 # rest))"
    by (intro scanstring_escape_char v) simp_all
  then show ?case by (simp add: emit_def)
next
  case 3
  show ?case by simp
qed

lemma skip_ws_nonws:
  "c \<noteq> 32 \<Longrightarrow> c \<noteq> 9 \<Longrightarrow> c \<noteq> 10 \<Longrightarrow> c \<noteq> 13 \<Longrightarrow> skip_ws (c # cs) = c # cs"
  by (simp add: skip_ws_def)

lemma skip_ws_space: "skip_ws (32 # cs) = skip_ws cs"
  by (simp add: skip_ws_def)

lemma scan_items_encoded:
  "list_all is_str (x # xs) \<Longrightarrow>
   scan_items (str_join [44, 32] (map encode_basestring_ascii (x # xs)) @ 93 # rest)
     = Some (map rejoin (x # xs), rest)"
proof (induction xs arbitrary: x)
  case Nil
  then show ?case
    by (simp add: encode_basestring_ascii_def scanstring_escaped skip_ws_nonws)
next
  case (Cons y ys)
  have x: "is_str x" using Cons.prems by simp
  have tl: "scan_items (str_join [44, 32] (map encode_basestring_ascii (y # ys)) @ 93 # rest)
     = Some (map rejoin (y # ys), rest)"
    using Cons.prems by (intro Cons.IH) simp
  define tail where "tail = str_join [44, 32] (map encode_basestring_ascii (y # ys)) @ 93 # rest"
  obtain body where body: "tail = 34 # body"
    unfolding tail_def by (cases ys) (simp_all add: encode_basestring_ascii_def)
  have whole: "str_join [44, 32] (map encode_basestring_ascii (x # y # ys)) @ 93 # rest
      = 34 # (concat (map escape_char x) @ 34 # 44 # 32 # tail)"
    by (simp add: tail_def encode_basestring_ascii_def)
  have "scan_items (34 # (concat (map escape_char x) @ 34 # 44 # 32 # tail))
      = Some (rejoin x # map rejoin (y # ys), rest)"
    using tl [folded tail_def]
    by (simp add: scanstring_escaped [OF x] skip_ws_nonws skip_ws_space body)
  then have "scan_items (34 # (concat (map escape_char x) @ 34 # 44 # 32 # tail))
      = Some (map rejoin (x # y # ys), rest)"
    by simp
  then show ?case by (simp only: whole)
qed

text \<open>
  \<open>json.loads(json.dumps(xs))\<close> for a list of strings: it never fails, and it is
  \<open>xs\<close> itself when no string of \<open>xs\<close> has a high surrogate directly followed by a
  low surrogate.
\<close>

lemma json_loads_dumps:
  assumes "list_all is_str xs"
  shows "json_loads (json_dumps xs) = Inr (map rejoin xs)"
proof (cases xs)
  case Nil
  then show ?thesis
    by (simp add: json_loads_def json_dumps_def skip_ws_def finish_def)
next
  case (Cons y ys)
  define tail where "tail = str_join [44, 32] (map encode_basestring_ascii (y # ys)) @ [93]"
  obtain body where body: "tail = 34 # body"
    unfolding tail_def by (cases ys) (simp_all add: encode_basestring_ascii_def)
  have items: "scan_items tail = Some (map rejoin (y # ys), [])"
    unfolding tail_def using scan_items_encoded [of y ys "[]"] assms Cons by simp
  have ws: "skip_ws tail = tail"
    unfolding body by (simp add: skip_ws_nonws)
  have dumps: "json_dumps xs = 91 # tail"
    by (simp add: json_dumps_def tail_def Cons)
  have "json_loads (91 # tail) = Inr (map rejoin (y # ys))"
    unfolding json_loads_def
    apply (simp only: skip_ws_nonws [of 91 tail, simplified] list.case ws)
    apply (simp only: body list.case)
    apply (simp add: items [unfolded body] finish_def skip_ws_def del: scan_items.simps)
    done
  with dumps Cons show ?thesis by simp
qed

lemma json_roundtrip:
  assumes "list_all is_str xs" and "list_all no_surrogate_pair xs"
  shows "json_loads (json_dumps xs) = Inr xs"
proof -
  have "map rejoin xs = xs"
    using assms(2) by (induction xs) (simp_all add: rejoin_no_pair)
  with json_loads_dumps [OF assms(1)] show ?thesis by simp
qed

text \<open>The encoder writes ASCII only, so its text can always be stored.\<close>

lemma hex4_ascii: "\<forall>x\<in>set (hex4 n). x < 128"
  by (auto simp: hex4_def hexdigit_def)

lemma escape_char_ascii: "\<forall>x\<in>set (escape_char c). x < 128"
  using hex4_ascii by (auto simp: escape_char_def Let_def)

lemma str_join_all:
  "\<forall>x\<in>set xs. \<forall>c\<in>set x. P c \<Longrightarrow> \<forall>c\<in>set sep. P c \<Longrightarrow>
   \<forall>c\<in>set (str_join sep xs). P c"
  by (induction sep xs rule: str_join.induct) auto

lemma json_dumps_well_formed: "well_formed (json_dumps xs)"
proof -
  have "\<forall>x\<in>set (map encode_basestring_ascii xs). \<forall>c\<in>set x. c < 128"
    using escape_char_ascii by (auto simp: encode_basestring_ascii_def)
  then have "\<forall>c\<in>set (str_join [44, 32] (map encode_basestring_ascii xs)). c < 128"
    by (rule str_join_all) simp
  then have "\<forall>c\<in>set (json_dumps xs). c < 128"
    by (auto simp: json_dumps_def)
  then show ?thesis
    by (auto simp: well_formed_def scalar_value_def list_all_iff)
qed

text \<open>Evaluation of the encoder and the decoder on concrete texts.\<close>

lemmas json_eval = json_loads_def json_dumps_def encode_basestring_ascii_def escape_char_def
  hex4_def hexdigit_def hexval_def backslash_def emit_def skip_ws_def finish_def lit_def
  storable_def well_formed_def scalar_value_def

lemma create_soup: "create_recipe soup [] = (Inr soup_recipe, [soup_row])"
  by (simp add: create_recipe_def soup_def soup_row_def soup_recipe_def next_rowid_def
      to_recipe_def json_eval)

lemma create_rice:
  "create_recipe rice [soup_row] =
     (Inr \<lparr>name = lit ''Rice'', ingredients = [lit ''rice''], steps = lit ''Steam.'', id' = 2\<rparr>,
      [soup_row, rice_row])"
  by (simp add: create_recipe_def rice_def soup_row_def rice_row_def next_rowid_def
      to_recipe_def json_eval)

lemma list_soup: "get_recipes [soup_row] = (Inr [soup_recipe], [soup_row])"
  by (simp add: get_recipes_def soup_row_def soup_recipe_def to_recipe_def json_eval)

lemma soup_ingredients_are_str: "list_all is_str (ingredients soup)"
  by (simp add: soup_def is_str_def lit_def)

lemma soup_ingredients_no_pair: "list_all no_surrogate_pair (ingredients soup)"
  by (simp add: soup_def lit_def is_high_surrogate_def)

lemma serve_example:
  "serve [CreateRecipe rice, GetRecipes, DeleteRecipe 2] [soup_row] = [soup_row]"
proof -
  have 1: "handle (CreateRecipe rice) [soup_row] = [soup_row, rice_row]"
    by (simp add: create_rice)
  have 2: "handle GetRecipes [soup_row, rice_row] = [soup_row, rice_row]"
    by (simp add: get_recipes_def)
  have 3: "handle (DeleteRecipe 2) [soup_row, rice_row] = [soup_row]"
    by (simp add: delete_recipe_def is_int64_def soup_row_def rice_row_def)
  show ?thesis
    by (simp only: serve_def fold_simps 1 2 3 o_apply id_apply)
qed

section \<open>Properties of the CRUD routes\<close>

lemma fold_max_ge: "(a::int) \<le> fold max xs a"
  by (induction xs arbitrary: a) (auto intro: order_trans [OF max.cobounded2])

lemma fold_max_mem: "x \<in> set xs \<Longrightarrow> (x::int) \<le> fold max xs a"
proof (induction xs arbitrary: a)
  case Nil
  then show ?case by simp
next
  case (Cons y ys)
  show ?case
  proof (cases "x = y")
    case True
    have "y \<le> max y a" by simp
    also have "\<dots> \<le> fold max ys (max y a)" by (rule fold_max_ge)
    finally show ?thesis using True by simp
  next
    case False
    with Cons show ?thesis by simp
  qed
qed

text \<open>The key of a new row is larger than every key in the table.\<close>

lemma next_rowid_fresh: "r \<in> set db \<Longrightarrow> row_id r < next_rowid db"
proof (cases db)
  case Nil
  assume "r \<in> set db"
  with Nil show ?thesis by simp
next
  case (Cons a rs)
  assume "r \<in> set db"
  with Cons have "r = a \<or> r \<in> set rs" by simp
  then have "row_id r \<le> fold max (map row_id rs) (row_id a)"
    using fold_max_ge [of "row_id a" "map row_id rs"]
      fold_max_mem [of "row_id r" "map row_id rs" "row_id a"]
    by auto
  then show ?thesis by (simp add: next_rowid_def Cons)
qed

lemma filter_fresh: "\<forall>r\<in>set db. row_id r \<noteq> k \<Longrightarrow> filter (\<lambda>r. row_id r \<noteq> k) db = db"
  by (induction db) auto

lemma find_fresh: "\<forall>r\<in>set db. row_id r \<noteq> k \<Longrightarrow> find (\<lambda>r. row_id r = k) db = None"
  by (induction db) auto

lemma find_append_fresh:
  "\<forall>r\<in>set db. row_id r \<noteq> row_id x \<Longrightarrow> find (\<lambda>r. row_id r = row_id x) (db @ [x]) = Some x"
  by (induction db) auto

lemma find_row_id:
  "find (\<lambda>r. row_id r = k) db = Some x \<Longrightarrow> row_id x = k"
  by (induction db) (auto split: if_splits)

lemma find_None_iff_row: "find (\<lambda>r. row_id r = k) db = None \<longleftrightarrow> k \<notin> row_id ` set db"
  by (induction db) auto

lemma create_recipe_keeps: "set db \<subseteq> set (snd (create_recipe recipe db))"
  by (auto simp: create_recipe_def Let_def split: sum.splits)

lemma create_recipe_Inr:
  assumes "create_recipe recipe db = (Inr r, db')"
  shows "id' r = next_rowid db" and "name r = name recipe" and "steps r = steps recipe"
    and "json_loads (json_dumps (ingredients recipe)) = Inr (ingredients r)"
    and "db' = db @ [\<lparr>row_id = next_rowid db, row_name = name recipe,
            row_ingredients = json_dumps (ingredients recipe), row_steps = steps recipe\<rparr>]"
  using assms
  by (auto simp: create_recipe_def Let_def to_recipe_def split: sum.splits if_splits)

text \<open>
  \<open>create_recipe\<close> returns a record whenever the name and the steps can be stored,
  and fails without storing anything otherwise.
\<close>

lemma create_recipe_total:
  assumes "list_all is_str (ingredients recipe)"
    and "well_formed (name recipe)" and "well_formed (steps recipe)"
  shows "create_recipe recipe db =
     (Inr \<lparr>name = name recipe, ingredients = map rejoin (ingredients recipe),
           steps = steps recipe, id' = next_rowid db\<rparr>,
      db @ [\<lparr>row_id = next_rowid db, row_name = name recipe,
             row_ingredients = json_dumps (ingredients recipe), row_steps = steps recipe\<rparr>])"
  using json_loads_dumps [OF assms(1)] assms(2,3)
  by (simp add: create_recipe_def Let_def to_recipe_def storable_def json_dumps_well_formed)

lemma create_recipe_not_storable:
  assumes "\<not> (well_formed (name recipe) \<and> well_formed (steps recipe))"
  shows "create_recipe recipe db = (Inl UnicodeEncodeError, db)"
  using assms by (auto simp: create_recipe_def Let_def storable_def)

lemma load_all_snoc:
  "load_all (db @ [row]) =
     (case load_all db of
        Inl e \<Rightarrow> Inl e
      | Inr out \<Rightarrow>
          (case json_loads (row_ingredients row) of
             Inl e \<Rightarrow> Inl e
           | Inr ings \<Rightarrow> Inr (out @ [to_recipe row ings])))"
  by (induction db) (auto split: sum.splits)

lemma load_all_mem:
  "load_all db = Inr rs \<Longrightarrow> row \<in> set db \<Longrightarrow> json_loads (row_ingredients row) = Inr ings \<Longrightarrow>
   to_recipe row ings \<in> set rs"
  by (induction db arbitrary: rs) (auto split: sum.splits)

text \<open>What \<open>delete_recipe\<close> returns, by the three cases of its id.\<close>

lemma delete_recipe_overflow:
  "\<not> is_int64 k \<Longrightarrow> delete_recipe k db = (Inl OverflowError, db)"
  by (simp add: delete_recipe_def)

lemma delete_recipe_absent:
  "is_int64 k \<Longrightarrow> k \<notin> row_id ` set db \<Longrightarrow>
   delete_recipe k db = (Inl (HTTPException 404 (lit ''Recipe not found'')), db)"
  by (simp add: delete_recipe_def find_None_iff_row [symmetric])

lemma delete_recipe_present:
  assumes "is_int64 k" and "k \<in> row_id ` set db"
  shows "delete_recipe k db =
     (Inr (lit ''Recipe deleted successfully''), filter (\<lambda>r. row_id r \<noteq> k) db)"
proof -
  from assms(2) obtain x where x: "find (\<lambda>r. row_id r = k) db = Some x"
    using find_None_iff_row [of k db] by (cases "find (\<lambda>r. row_id r = k) db") auto
  then have "row_id x = k" by (rule find_row_id)
  with x assms(1) show ?thesis by (simp add: delete_recipe_def)
qed

text \<open>
  The keys of a table that the requests build from the empty table lie between 1 and
  the number of requests, so they are SQLite integers.
\<close>

lemma fold_max_le: "(a::int) \<le> n \<Longrightarrow> \<forall>x\<in>set xs. x \<le> n \<Longrightarrow> fold max xs a \<le> n"
  by (induction xs arbitrary: a) auto

lemma next_rowid_bounds:
  assumes "\<forall>r\<in>set db. 1 \<le> row_id r \<and> row_id r \<le> n" and "0 \<le> n"
  shows "1 \<le> next_rowid db \<and> next_rowid db \<le> n + 1"
proof (cases db)
  case Nil
  with assms(2) show ?thesis by (simp add: next_rowid_def)
next
  case (Cons a rs)
  with assms(1) have a: "1 \<le> row_id a" "row_id a \<le> n" and rs: "\<forall>x\<in>set (map row_id rs). x \<le> n"
    by auto
  have "row_id a \<le> fold max (map row_id rs) (row_id a)" by (rule fold_max_ge)
  moreover have "fold max (map row_id rs) (row_id a) \<le> n" using a(2) rs by (rule fold_max_le)
  ultimately show ?thesis using a(1) by (simp add: next_rowid_def Cons)
qed

lemma handle_ids_bounded:
  assumes "\<forall>r\<in>set db. 1 \<le> row_id r \<and> row_id r \<le> n" and "0 \<le> n"
  shows "\<forall>r\<in>set (handle q db). 1 \<le> row_id r \<and> row_id r \<le> n + 1"
proof (cases q)
  case (CreateRecipe recipe)
  with assms next_rowid_bounds [OF assms] show ?thesis
    by (auto simp: create_recipe_def Let_def split: sum.splits)
next
  case (DeleteRecipe k)
  with assms(1) show ?thesis
    by (auto simp: delete_recipe_def split: option.splits if_splits)
next
  case GetRecipes
  with assms(1) show ?thesis by (auto simp: get_recipes_def)
next
  case (SuggestAiRecipe env data)
  with assms(1) show ?thesis
    by (auto simp: suggest_ai_recipe_def Let_def split: sum.splits list.splits)
qed

lemma serve_ids_bounded:
  "\<forall>r\<in>set db. 1 \<le> row_id r \<and> row_id r \<le> n \<Longrightarrow> 0 \<le> n \<Longrightarrow>
   \<forall>r\<in>set (serve reqs db). 1 \<le> row_id r \<and> row_id r \<le> n + int (length reqs)"
proof (induction reqs arbitrary: db n)
  case Nil
  then show ?case by (simp add: serve_def)
next
  case (Cons q reqs)
  have "\<forall>r\<in>set (handle q db). 1 \<le> row_id r \<and> row_id r \<le> n + 1"
    using Cons.prems by (rule handle_ids_bounded)
  then have "\<forall>r\<in>set (serve reqs (handle q db)).
      1 \<le> row_id r \<and> row_id r \<le> (n + 1) + int (length reqs)"
    using Cons.prems(2) by (intro Cons.IH) simp_all
  then show ?case by (simp add: serve_def add.assoc)
qed

lemma next_rowid_served:
  assumes "length reqs < 9223372036854775807"
  shows "is_int64 (next_rowid (serve reqs []))"
proof -
  have "\<forall>r\<in>set (serve reqs []). 1 \<le> row_id r \<and> row_id r \<le> 0 + int (length reqs)"
    by (rule serve_ids_bounded) simp_all
  then have "\<forall>r\<in>set (serve reqs []). 1 \<le> row_id r \<and> row_id r \<le> int (length reqs)"
    by simp
  from next_rowid_bounds [OF this] assms show ?thesis
    by (simp add: is_int64_def)
qed

text \<open>A row stays in the table until a delete with its key.\<close>

lemma serve_keeps_row:
  "row \<in> set db \<Longrightarrow> DeleteRecipe (row_id row) \<notin> set reqs \<Longrightarrow> row \<in> set (serve reqs db)"
proof (induction reqs arbitrary: db)
  case Nil
  then show ?case by (simp add: serve_def)
next
  case (Cons q reqs)
  have "row \<in> set (handle q db)"
  proof (cases q)
    case (CreateRecipe recipe)
    with Cons.prems create_recipe_keeps [of db recipe] show ?thesis by auto
  next
    case (DeleteRecipe k)
    with Cons.prems have "k \<noteq> row_id row" by auto
    with Cons.prems DeleteRecipe show ?thesis
      by (auto simp: delete_recipe_def split: option.splits if_splits dest: find_row_id)
  next
    case GetRecipes
    with Cons.prems show ?thesis by (simp add: get_recipes_def)
  next
    case (SuggestAiRecipe env data)
    with Cons.prems show ?thesis
      by (simp add: suggest_ai_recipe_def Let_def split: sum.splits list.splits)
  qed
  with Cons show ?case by (simp add: serve_def)
qed

text \<open>
  C1, as amended. Round trip of the ingredient list. For every recipe in whose
  ingredient strings no high surrogate is directly followed by a low surrogate (so
  for all well-formed Unicode strings; any order, duplicates allowed) and every table
  whose listing succeeds: the record that \<open>create_recipe\<close> returns has exactly the
  input list, and the listing of the table after the creation is the earlier listing
  followed by that record: same elements, same order, same duplicates.
  \<open>create_recipe\<close> does return a record when the name and the steps are well-formed.
\<close>

theorem create_then_list_roundtrip:
  assumes "list_all is_str (ingredients recipe)"
    and "list_all no_surrogate_pair (ingredients recipe)"
    and "fst (get_recipes db) = Inr old"
  shows "(well_formed (name recipe) \<and> well_formed (steps recipe) \<longrightarrow>
            (\<exists>r db'. create_recipe recipe db = (Inr r, db'))) \<and>
         (\<forall>r db'. create_recipe recipe db = (Inr r, db') \<longrightarrow>
            ingredients r = ingredients recipe \<and>
            get_recipes db' = (Inr (old @ [r]), db'))"
proof (intro conjI impI allI)
  assume "well_formed (name recipe) \<and> well_formed (steps recipe)"
  then show "\<exists>r db'. create_recipe recipe db = (Inr r, db')"
    using create_recipe_total [OF assms(1), of db] by simp
next
  fix r db'
  assume c: "create_recipe recipe db = (Inr r, db')"
  have rt: "json_loads (json_dumps (ingredients recipe)) = Inr (ingredients recipe)"
    using assms(1,2) by (rule json_roundtrip)
  with create_recipe_Inr(4) [OF c] show i: "ingredients r = ingredients recipe" by simp
  from assms(3) have old: "load_all db = Inr old" by (simp add: get_recipes_def)
  have "r = to_recipe \<lparr>row_id = next_rowid db, row_name = name recipe,
            row_ingredients = json_dumps (ingredients recipe), row_steps = steps recipe\<rparr>
            (ingredients recipe)"
    using create_recipe_Inr(1,2,3) [OF c] i by (simp add: to_recipe_def)
  then show "get_recipes db' = (Inr (old @ [r]), db')"
    unfolding create_recipe_Inr(5) [OF c]
    by (simp add: get_recipes_def load_all_snoc old rt)
qed

theorem create_then_list_roundtrip_witness:
  "list_all is_str (ingredients soup) \<and> list_all no_surrogate_pair (ingredients soup) \<and>
   fst (get_recipes []) = Inr [] \<and>
   well_formed (name soup) \<and> well_formed (steps soup) \<and>
   create_recipe soup [] = (Inr soup_recipe, [soup_row]) \<and>
   ingredients soup_recipe = ingredients soup \<and>
   get_recipes [soup_row] = (Inr [soup_recipe], [soup_row])"
proof -
  have old: "fst (get_recipes []) = Inr []"
    by (simp add: get_recipes_def)
  have wf: "well_formed (name soup)" "well_formed (steps soup)"
    by (simp_all add: soup_def well_formed_def scalar_value_def lit_def)
  from create_then_list_roundtrip [OF soup_ingredients_are_str soup_ingredients_no_pair old]
  have "ingredients soup_recipe = ingredients soup \<and>
      get_recipes [soup_row] = (Inr ([] @ [soup_recipe]), [soup_row])"
    using create_soup by blast
  with soup_ingredients_are_str soup_ingredients_no_pair old wf create_soup
  show ?thesis by simp
qed

text \<open>
  C1 as stated fails for a string that holds a high surrogate directly followed by a
  low surrogate: the encoder writes the two as two \<open>\uXXXX\<close> escapes, and the decoder
  reads two such escapes as one character. The ingredient of two code points comes
  back, from the creation and from the listing, as a string of one.
\<close>

theorem surrogate_pair_not_round_tripped:
  "list_all is_str (ingredients smile) \<and>
   create_recipe smile [] = (Inr smile_recipe, [smile_row]) \<and>
   get_recipes [smile_row] = (Inr [smile_recipe], [smile_row]) \<and>
   ingredients smile = [[55357, 56832]] \<and>
   ingredients smile_recipe = [[128512]] \<and>
   ingredients smile_recipe \<noteq> ingredients smile"
  by (simp add: create_recipe_def get_recipes_def smile_def smile_row_def smile_recipe_def
      next_rowid_def to_recipe_def is_str_def json_eval push_bit_eq_mult)

text \<open>
  C2. A created recipe is deleted exactly once by its returned id. When
  \<open>create_recipe\<close> returns the record \<open>r\<close>, the first delete with the id of \<open>r\<close>
  answers \<open>Recipe deleted successfully\<close> and leaves the table as it was before the
  creation, and a second delete with the same id answers 404 \<open>Recipe not found\<close>.
  The id is an SQLite integer on every table that fewer than \<open>2^63 - 1\<close> requests
  have built from the empty table; on an id outside that range, which no store holds,
  the model's delete fails in the driver.
\<close>

theorem delete_created_exactly_once:
  assumes "create_recipe recipe db = (Inr r, db')"
  shows "(is_int64 (id' r) \<longrightarrow>
            delete_recipe (id' r) db' = (Inr (lit ''Recipe deleted successfully''), db) \<and>
            delete_recipe (id' r) db = (Inl (HTTPException 404 (lit ''Recipe not found'')), db)) \<and>
         (\<not> is_int64 (id' r) \<longrightarrow> delete_recipe (id' r) db' = (Inl OverflowError, db')) \<and>
         (\<forall>reqs. db = serve reqs [] \<and> length reqs < 9223372036854775807 \<longrightarrow> is_int64 (id' r))"
proof (intro conjI impI allI)
  define row where "row = \<lparr>row_id = next_rowid db, row_name = name recipe,
            row_ingredients = json_dumps (ingredients recipe), row_steps = steps recipe\<rparr>"
  have db': "db' = db @ [row]"
    using create_recipe_Inr(5) [OF assms] by (simp add: row_def)
  have rid: "id' r = row_id row"
    using create_recipe_Inr(1) [OF assms] by (simp add: row_def)
  have fresh: "\<forall>x\<in>set db. row_id x \<noteq> row_id row"
    using next_rowid_fresh [of _ db] by (fastforce simp: row_def)
  {
    assume i: "is_int64 (id' r)"
    have "delete_recipe (row_id row) (db @ [row]) = (Inr (lit ''Recipe deleted successfully''), db)"
      using i
      by (simp add: delete_recipe_def rid find_append_fresh [OF fresh] filter_fresh [OF fresh])
    then show "delete_recipe (id' r) db' = (Inr (lit ''Recipe deleted successfully''), db)"
      by (simp add: db' rid)
    have "delete_recipe (row_id row) db = (Inl (HTTPException 404 (lit ''Recipe not found'')), db)"
      using i by (simp add: delete_recipe_def rid find_fresh [OF fresh])
    then show "delete_recipe (id' r) db = (Inl (HTTPException 404 (lit ''Recipe not found'')), db)"
      by (simp add: rid)
  }
  {
    assume "\<not> is_int64 (id' r)"
    then show "delete_recipe (id' r) db' = (Inl OverflowError, db')"
      by (rule delete_recipe_overflow)
  }
  {
    fix reqs
    assume "db = serve reqs [] \<and> length reqs < 9223372036854775807"
    then show "is_int64 (id' r)"
      using next_rowid_served [of reqs] create_recipe_Inr(1) [OF assms] by simp
  }
qed

theorem delete_created_exactly_once_witness:
  "create_recipe soup [] = (Inr soup_recipe, [soup_row]) \<and>
   is_int64 (id' soup_recipe) \<and>
   [] = serve [] [] \<and> length ([] :: request list) < 9223372036854775807 \<and>
   delete_recipe 1 [soup_row] = (Inr (lit ''Recipe deleted successfully''), []) \<and>
   delete_recipe 1 [] = (Inl (HTTPException 404 (lit ''Recipe not found'')), [])"
proof -
  note t = delete_created_exactly_once [OF create_soup]
  have s: "[] = serve [] []" "length ([] :: request list) < 9223372036854775807"
    by (simp_all add: serve_def)
  with t have i: "is_int64 (id' soup_recipe)" by blast
  with t have "delete_recipe (id' soup_recipe) [soup_row] = (Inr (lit ''Recipe deleted successfully''), [])"
    and "delete_recipe (id' soup_recipe) [] = (Inl (HTTPException 404 (lit ''Recipe not found'')), [])"
    by blast+
  with i s create_soup show ?thesis
    by (simp add: soup_recipe_def)
qed

text \<open>
  C8. Name and steps are stored and returned verbatim. The record that
  \<open>create_recipe\<close> returns has exactly the name and the steps supplied; the listing
  right after the creation ends with that record; and every later listing, after any
  requests with no delete of its id, still holds that record.
\<close>

theorem name_and_steps_verbatim:
  assumes "create_recipe recipe db = (Inr r, db')"
  shows "name r = name recipe \<and> steps r = steps recipe \<and>
         (\<forall>old. fst (get_recipes db) = Inr old \<longrightarrow> get_recipes db' = (Inr (old @ [r]), db')) \<and>
         (\<forall>reqs rs. DeleteRecipe (id' r) \<notin> set reqs \<longrightarrow>
            fst (get_recipes (serve reqs db')) = Inr rs \<longrightarrow> r \<in> set rs)"
proof -
  define row where "row = \<lparr>row_id = next_rowid db, row_name = name recipe,
             row_ingredients = json_dumps (ingredients recipe), row_steps = steps recipe\<rparr>"
  have rt: "json_loads (row_ingredients row) = Inr (ingredients r)"
    using create_recipe_Inr(4) [OF assms] by (simp add: row_def)
  have r: "r = to_recipe row (ingredients r)"
    using create_recipe_Inr(1,2,3) [OF assms] by (simp add: row_def to_recipe_def)
  have db': "db' = db @ [row]"
    using create_recipe_Inr(5) [OF assms] by (simp add: row_def)
  have rid: "id' r = row_id row"
    using create_recipe_Inr(1) [OF assms] by (simp add: row_def)
  have now: "get_recipes (db @ [row]) = (Inr (old @ [r]), db @ [row])"
    if "fst (get_recipes db) = Inr old" for old
    using that r by (simp add: get_recipes_def load_all_snoc rt)
  have later: "r \<in> set rs"
    if "DeleteRecipe (id' r) \<notin> set reqs" and "fst (get_recipes (serve reqs (db @ [row]))) = Inr rs"
    for reqs rs
  proof -
    from that(1) have "DeleteRecipe (row_id row) \<notin> set reqs" by (simp add: rid)
    then have m: "row \<in> set (serve reqs (db @ [row]))" by (intro serve_keeps_row) simp_all
    from that(2) have "load_all (serve reqs (db @ [row])) = Inr rs"
      by (simp add: get_recipes_def)
    then have "to_recipe row (ingredients r) \<in> set rs"
      using m rt by (rule load_all_mem)
    with r show ?thesis by simp
  qed
  show ?thesis
    using create_recipe_Inr(2,3) [OF assms] now later unfolding db' by blast
qed

theorem name_and_steps_verbatim_witness:
  "create_recipe soup [] = (Inr soup_recipe, [soup_row]) \<and>
   name soup_recipe = name soup \<and> steps soup_recipe = steps soup \<and>
   fst (get_recipes []) = Inr [] \<and>
   get_recipes [soup_row] = (Inr [soup_recipe], [soup_row]) \<and>
   DeleteRecipe (id' soup_recipe) \<notin> set [CreateRecipe rice, GetRecipes, DeleteRecipe 2] \<and>
   fst (get_recipes (serve [CreateRecipe rice, GetRecipes, DeleteRecipe 2] [soup_row]))
     = Inr [soup_recipe] \<and>
   soup_recipe \<in> set [soup_recipe]"
proof -
  note v = name_and_steps_verbatim [OF create_soup]
  have old: "fst (get_recipes []) = Inr []"
    by (simp add: get_recipes_def)
  have nd: "DeleteRecipe (id' soup_recipe) \<notin> set [CreateRecipe rice, GetRecipes, DeleteRecipe 2]"
    by (simp add: soup_recipe_def)
  have l: "fst (get_recipes (serve [CreateRecipe rice, GetRecipes, DeleteRecipe 2] [soup_row]))
     = Inr [soup_recipe]"
    by (simp add: serve_example list_soup)
  from v old have "get_recipes [soup_row] = (Inr ([] @ [soup_recipe]), [soup_row])" by blast
  moreover from v nd l have "soup_recipe \<in> set [soup_recipe]" by blast
  moreover from v have "name soup_recipe = name soup" "steps soup_recipe = steps soup"
    by blast+
  ultimately show ?thesis
    using create_soup old nd l by simp
qed

text \<open>
  C9. The frame of a delete. A delete that fails leaves the table unchanged: so does
  the 404 for an id that no row has, and so does the failure of the driver on an id
  that is no SQLite integer. A delete that succeeds was given an id that is present,
  and the table afterwards is the table before without the rows of that id: every row
  with another id is still there, unchanged and in the same order, and nothing is
  added. A delete with an SQLite integer succeeds exactly when the id is present.
\<close>

theorem delete_frame:
  "(\<forall>e db'. delete_recipe k db = (Inl e, db') \<longrightarrow> db' = db) \<and>
   (\<forall>m db'. delete_recipe k db = (Inr m, db') \<longrightarrow>
      k \<in> row_id ` set db \<and>
      m = lit ''Recipe deleted successfully'' \<and>
      db' = filter (\<lambda>r. row_id r \<noteq> k) db \<and>
      filter (\<lambda>r. row_id r \<noteq> k) db' = filter (\<lambda>r. row_id r \<noteq> k) db \<and>
      (\<forall>r\<in>set db. row_id r \<noteq> k \<longrightarrow> r \<in> set db') \<and>
      (\<forall>r\<in>set db'. r \<in> set db \<and> row_id r \<noteq> k)) \<and>
   (is_int64 k \<and> k \<in> row_id ` set db \<longrightarrow>
      delete_recipe k db =
        (Inr (lit ''Recipe deleted successfully''), filter (\<lambda>r. row_id r \<noteq> k) db)) \<and>
   (is_int64 k \<and> k \<notin> row_id ` set db \<longrightarrow>
      delete_recipe k db = (Inl (HTTPException 404 (lit ''Recipe not found'')), db)) \<and>
   (\<not> is_int64 k \<longrightarrow> delete_recipe k db = (Inl OverflowError, db))"
proof -
  consider (overflow) "\<not> is_int64 k"
    | (absent) "is_int64 k" "k \<notin> row_id ` set db"
    | (present) "is_int64 k" "k \<in> row_id ` set db"
    by blast
  then show ?thesis
  proof cases
    case overflow
    then show ?thesis by (simp add: delete_recipe_overflow)
  next
    case absent
    then show ?thesis by (simp add: delete_recipe_absent)
  next
    case present
    then show ?thesis by (auto simp: delete_recipe_present)
  qed
qed

theorem delete_frame_witness:
  "is_int64 7 \<and> 7 \<notin> row_id ` set [soup_row, rice_row] \<and>
   delete_recipe 7 [soup_row, rice_row] =
     (Inl (HTTPException 404 (lit ''Recipe not found'')), [soup_row, rice_row]) \<and>
   is_int64 1 \<and> 1 \<in> row_id ` set [soup_row, rice_row] \<and>
   delete_recipe 1 [soup_row, rice_row] =
     (Inr (lit ''Recipe deleted successfully''), [rice_row]) \<and>
   \<not> is_int64 9223372036854775808 \<and>
   delete_recipe 9223372036854775808 [soup_row, rice_row] =
     (Inl OverflowError, [soup_row, rice_row])"
proof -
  have a: "is_int64 7" "7 \<notin> row_id ` set [soup_row, rice_row]"
    by (simp_all add: is_int64_def soup_row_def rice_row_def)
  have b: "is_int64 1" "1 \<in> row_id ` set [soup_row, rice_row]"
    by (simp_all add: is_int64_def soup_row_def rice_row_def)
  have c: "\<not> is_int64 9223372036854775808"
    by (simp add: is_int64_def)
  from delete_frame [of 7 "[soup_row, rice_row]"] a
  have 1: "delete_recipe 7 [soup_row, rice_row] =
     (Inl (HTTPException 404 (lit ''Recipe not found'')), [soup_row, rice_row])"
    by blast
  from delete_frame [of 1 "[soup_row, rice_row]"] b
  have "delete_recipe 1 [soup_row, rice_row] =
     (Inr (lit ''Recipe deleted successfully''), filter (\<lambda>r. row_id r \<noteq> 1) [soup_row, rice_row])"
    by blast
  then have 2: "delete_recipe 1 [soup_row, rice_row] =
     (Inr (lit ''Recipe deleted successfully''), [rice_row])"
    by (simp add: soup_row_def rice_row_def)
  from delete_frame [of 9223372036854775808 "[soup_row, rice_row]"] c
  have 3: "delete_recipe 9223372036854775808 [soup_row, rice_row] =
     (Inl OverflowError, [soup_row, rice_row])"
    by blast
  from a b c 1 2 3 show ?thesis by simp
qed

section \<open>Properties of the suggestion route\<close>

text \<open>The fallback path: what the handler returns and does when the \<open>try\<close> block raises.\<close>

lemma suggest_fallback:
  assumes "credential_configured env" and "try_block_raises env data e" and "is_Exception e"
  shows "suggest_ai_recipe env data db =
     (Inr (Some (fallback_text (random_choice (random_draw env) styles)
                   (case data of [] \<Rightarrow> lit ''Vegetable'' | first # _ \<Rightarrow> str_capitalize env first)
                   (str_join (lit '', '') data))),
      \<lparr>outbound = [completion_request_for (str_join (lit '', '') data)],
       printed = [lit ''AI Error: '' @ message e]\<rparr>, db)"
proof (cases "chat_completions_create env (completion_request_for (str_join (lit '', '') data))")
  case (Inl e')
  with assms(2) have "e' = e" by (simp add: try_block_raises_def)
  with Inl assms(1,3) show ?thesis
    by (auto simp: suggest_ai_recipe_def credential_configured_def Let_def)
next
  case (Inr choices)
  with assms(2) have "choices = []" "e = Raised True (lit ''list index out of range'')"
    by (simp_all add: try_block_raises_def)
  with Inr assms(1) show ?thesis
    by (auto simp: suggest_ai_recipe_def credential_configured_def Let_def)
qed

text \<open>
  An exception that is not an instance of \<open>Exception\<close> is not caught: it leaves the
  handler.
\<close>

lemma suggest_propagates:
  assumes "credential_configured env" and "try_block_raises env data e" and "\<not> is_Exception e"
  shows "fst (suggest_ai_recipe env data db) = Inl (Propagated e)"
proof (cases "chat_completions_create env (completion_request_for (str_join (lit '', '') data))")
  case (Inl e')
  with assms(2) have "e' = e" by (simp add: try_block_raises_def)
  with Inl assms(1,3) show ?thesis
    by (auto simp: suggest_ai_recipe_def credential_configured_def Let_def)
next
  case (Inr choices)
  with assms(2,3) show ?thesis
    by (simp add: try_block_raises_def)
qed

lemma example_env_configured: "credential_configured (example_env k)"
  by (simp add: credential_configured_def example_env_def lit_def)

lemma example_env_raises: "try_block_raises (example_env k) data connection_error"
  by (simp add: try_block_raises_def example_env_def failing_provider_def)

lemma connection_error_is_Exception: "is_Exception connection_error"
  by (simp add: connection_error_def)

lemma no_choices_env_configured: "credential_configured (no_choices_env k)"
  by (simp add: credential_configured_def no_choices_env_def lit_def)

lemma no_choices_env_raises: "try_block_raises (no_choices_env k) data index_error"
  by (simp add: try_block_raises_def no_choices_env_def index_error_def)

lemma index_error_is_Exception: "is_Exception index_error"
  by (simp add: index_error_def)

lemmas text_eval = fallback_text_def random_choice_def styles_def example_env_def
  ascii_capitalize_def ascii_upper_def ascii_lower_def lit_def

lemma random_choice_styles: "random_choice r styles = styles ! (r mod 4)"
  by (simp add: random_choice_def styles_def)

lemma suggest_gourmet:
  "fst (suggest_ai_recipe (example_env 2) [lit ''rice'', lit ''salt''] db) = Inr (Some gourmet_rice_text)"
  unfolding suggest_fallback [OF example_env_configured example_env_raises connection_error_is_Exception]
  by (simp add: text_eval gourmet_rice_text_def)

text \<open>
  C3. Without a credential (the variable unset or empty) the handler answers 400 with
  the detail \<open>GROQ API Key is missing in environment variables.\<close>, whatever the
  ingredient list; no call goes out to the provider, nothing is printed, and the
  fallback is not used.
\<close>

theorem missing_credential_is_400:
  assumes "\<not> credential_configured env"
  shows "suggest_ai_recipe env data db =
     (Inl (HTTPException 400 (lit ''GROQ API Key is missing in environment variables.'')),
      \<lparr>outbound = [], printed = []\<rparr>, db)"
  using assms by (auto simp: suggest_ai_recipe_def credential_configured_def Let_def)

theorem missing_credential_is_400_witness:
  "\<not> credential_configured no_key_env \<and>
   \<not> credential_configured (no_key_env\<lparr>GROQ_API_KEY := Some []\<rparr>) \<and>
   suggest_ai_recipe no_key_env [lit ''rice'', lit ''salt''] [soup_row] =
     (Inl (HTTPException 400 (lit ''GROQ API Key is missing in environment variables.'')),
      \<lparr>outbound = [], printed = []\<rparr>, [soup_row]) \<and>
   suggest_ai_recipe (no_key_env\<lparr>GROQ_API_KEY := Some []\<rparr>) [] [] =
     (Inl (HTTPException 400 (lit ''GROQ API Key is missing in environment variables.'')),
      \<lparr>outbound = [], printed = []\<rparr>, [])"
proof -
  have a: "\<not> credential_configured no_key_env"
    by (simp add: credential_configured_def no_key_env_def)
  have b: "\<not> credential_configured (no_key_env\<lparr>GROQ_API_KEY := Some []\<rparr>)"
    by (simp add: credential_configured_def)
  from missing_credential_is_400 [OF a] missing_credential_is_400 [OF b] a b
  show ?thesis by simp
qed



text \<open>
  C7. On the fallback path with an empty ingredient list the handler does not fail:
  the headline ingredient is the placeholder \<open>Vegetable\<close>, the joined phrase is empty,
  and the response is a successful fallback suggestion.
\<close>

theorem empty_list_fallback:
  assumes "credential_configured env" and "try_block_raises env [] e" and "is_Exception e"
  shows "fst (suggest_ai_recipe env [] db) =
     Inr (Some (fallback_text (random_choice (random_draw env) styles) (lit ''Vegetable'') []))"
  by (simp add: suggest_fallback [OF assms])

theorem empty_list_fallback_witness:
  "credential_configured (example_env 0) \<and>
   try_block_raises (example_env 0) [] connection_error \<and>
   is_Exception connection_error \<and>
   fst (suggest_ai_recipe (example_env 0) [] []) = Inr (Some roasted_vegetable_text)"
  using empty_list_fallback
    [OF example_env_configured example_env_raises connection_error_is_Exception, of 0 "[]"]
    example_env_configured [of 0] example_env_raises [of 0 "[]"]
    connection_error_is_Exception
  by (simp add: text_eval roasted_vegetable_text_def)

text \<open>
  C10. The handler neither reads nor writes the recipe table: for any two tables, the
  same environment and the same ingredient list, the response and the effects are the
  same, and the table after the request is the table before it.
\<close>

theorem suggestion_ignores_store:
  "fst (suggest_ai_recipe env data db1) = fst (suggest_ai_recipe env data db2) \<and>
   fst (snd (suggest_ai_recipe env data db1)) = fst (snd (suggest_ai_recipe env data db2)) \<and>
   snd (snd (suggest_ai_recipe env data db1)) = db1"
  by (simp add: suggest_ai_recipe_def Let_def split: sum.splits list.splits)

section \<open>The fallback text\<close>

lemma split_lines_append: "10 \<notin> set a \<Longrightarrow> split_lines (a @ 10 # b) = a # split_lines b"
  by (induction a) auto

lemma split_lines_lf: "split_lines (10 # b) = [] # split_lines b"
  by simp

lemma str_join_no_lf:
  "\<forall>i\<in>set xs. 10 \<notin> set i \<Longrightarrow> 10 \<notin> set sep \<Longrightarrow> 10 \<notin> set (str_join sep xs)"
  by (induction sep xs rule: str_join.induct) auto

lemma sublist_str_join: "i \<in> set xs \<Longrightarrow> sublist i (str_join sep xs)"
proof (induction sep xs rule: str_join.induct)
  case (1 sep)
  then show ?case by simp
next
  case (2 sep x)
  then show ?case by simp
next
  case (3 sep x y ys)
  show ?case
  proof (cases "i = x")
    case True
    then show ?thesis by (simp add: sublist_append_rightI)
  next
    case False
    with 3 have "sublist i (str_join sep (y # ys))" by simp
    then obtain ps ss where "str_join sep (y # ys) = ps @ i @ ss"
      by (auto simp: sublist_def)
    then have "str_join sep (x # y # ys) = (x @ sep @ ps) @ i @ ss" by simp
    then show ?thesis unfolding sublist_def by blast
  qed
qed

lemma styles_no_lf: "k < 4 \<Longrightarrow> 10 \<notin> set (styles ! k)"
proof -
  assume "k < 4"
  then have "k = 0 \<or> k = 1 \<or> k = 2 \<or> k = 3" by arith
  then show ?thesis by (auto simp: styles_def lit_def)
qed

text \<open>The text is the headline and the note followed by the template of the steps.\<close>

lemma fallback_text_template:
  "fallback_text style main_ing user_ingredients =
     (lit ''Recipe Name: '' @ style @ lit '' '' @ main_ing @ lit '' (Local Chef Mode)'' @ [10, 10]
      @ lit ''Note: [AI Service Busy - Using Local Intelligence]'' @ [10, 10])
     @ steps_header @ [10] @ concat (map (\<lambda>l. l @ [10]) (step_lines user_ingredients))"
  by (simp add: fallback_text_def steps_header_def step_lines_def)

lemma sublist_fallback_text:
  assumes "sublist i user_ingredients"
  shows "sublist i (fallback_text style main_ing user_ingredients)"
proof -
  from assms obtain ps ss where "user_ingredients = ps @ i @ ss"
    by (auto simp: sublist_def)
  then have "fallback_text style main_ing user_ingredients =
      (lit ''Recipe Name: '' @ style @ lit '' '' @ main_ing @ lit '' (Local Chef Mode)'' @ [10, 10]
       @ lit ''Note: [AI Service Busy - Using Local Intelligence]'' @ [10, 10]
       @ lit ''Preparation Steps (step by step):'' @ [10]
       @ lit ''1. Prepare your '' @ ps) @ i @
      (ss @ lit ''.'' @ [10]
       @ lit ''2. Saut'' @ [233] @ lit '' in a hot pan with oil until tender.'' @ [10]
       @ lit ''3. Season to taste and serve beautifully.'' @ [10])"
    by (simp add: fallback_text_def)
  then show ?thesis unfolding sublist_def by blast
qed

text \<open>The lines of the text when none of its parts holds a line feed.\<close>

lemma fallback_text_lines:
  assumes "10 \<notin> set style" and "10 \<notin> set main_ing" and "10 \<notin> set user_ingredients"
  shows "split_lines (fallback_text style main_ing user_ingredients) =
     [lit ''Recipe Name: '' @ style @ lit '' '' @ main_ing @ lit '' (Local Chef Mode)'',
      [],
      lit ''Note: [AI Service Busy - Using Local Intelligence]'',
      [],
      steps_header] @ step_lines user_ingredients @ [[]]"
proof -
  let ?l0 = "lit ''Recipe Name: '' @ style @ lit '' '' @ main_ing @ lit '' (Local Chef Mode)''"
  let ?note = "lit ''Note: [AI Service Busy - Using Local Intelligence]''"
  let ?s1 = "lit ''1. Prepare your '' @ user_ingredients @ lit ''.''"
  let ?s2 = "lit ''2. Saut'' @ [233] @ lit '' in a hot pan with oil until tender.''"
  let ?s3 = "lit ''3. Season to taste and serve beautifully.''"
  have n0: "10 \<notin> set ?l0" using assms by (simp add: lit_def)
  have nn: "10 \<notin> set ?note" by (simp add: lit_def)
  have nh: "10 \<notin> set steps_header" by (simp add: steps_header_def lit_def)
  have n1: "10 \<notin> set ?s1" using assms by (simp add: lit_def)
  have n2: "10 \<notin> set ?s2" by (simp add: lit_def)
  have n3: "10 \<notin> set ?s3" by (simp add: lit_def)
  have ft: "fallback_text style main_ing user_ingredients =
      ?l0 @ 10 # 10 # ?note @ 10 # 10 # steps_header @ 10 # ?s1 @ 10 # ?s2 @ 10 # ?s3 @ 10 # []"
    by (simp add: fallback_text_def steps_header_def)
  have ls: "split_lines (?l0 @ 10 # 10 # ?note @ 10 # 10 # steps_header @ 10 # ?s1 @ 10 # ?s2 @
      10 # ?s3 @ 10 # []) = [?l0, [], ?note, [], steps_header, ?s1, ?s2, ?s3, []]"
    by (simp only: split_lines_append [OF n0] split_lines_append [OF nn]
        split_lines_append [OF nh] split_lines_append [OF n1] split_lines_append [OF n2]
        split_lines_append [OF n3] split_lines_lf split_lines.simps(1))
  show ?thesis
    unfolding ft ls by (simp add: step_lines_def)
qed

lemma preparation_steps_fallback:
  assumes "10 \<notin> set style" and "10 \<notin> set main_ing" and "10 \<notin> set user_ingredients"
  shows "preparation_steps (fallback_text style main_ing user_ingredients)
           = Some (step_lines user_ingredients)"
proof -
  have h0: "lit ''Recipe Name: '' @ style @ lit '' '' @ main_ing @ lit '' (Local Chef Mode)''
      \<noteq> steps_header"
    by (simp add: steps_header_def lit_def)
  have h1: "[] \<noteq> steps_header"
    by (simp add: steps_header_def lit_def)
  have h2: "lit ''Note: [AI Service Busy - Using Local Intelligence]'' \<noteq> steps_header"
    by (simp add: steps_header_def lit_def)
  have s1: "numbered_step (lit ''1. Prepare your '' @ user_ingredients @ lit ''.'')"
    by (simp add: lit_def numbered_step_def is_digit_def)
  have s2: "numbered_step (lit ''2. Saut'' @ [233] @ lit '' in a hot pan with oil until tender.'')"
    by (simp add: lit_def numbered_step_def is_digit_def)
  have s3: "numbered_step (lit ''3. Season to taste and serve beautifully.'')"
    by (simp add: lit_def numbered_step_def is_digit_def)
  have s4: "\<not> numbered_step []"
    by (simp add: numbered_step_def)
  show ?thesis
    unfolding preparation_steps_def fallback_text_lines [OF assms]
    using h0 h1 h2 s1 s2 s3 s4 by (simp add: step_lines_def)
qed

lemma preparation_steps_extra:
  "preparation_steps extra_step_text =
     Some [lit ''1. Prepare your rice, salt'', lit ''4. Eat.'',
           lit ''2. Saut'' @ [233] @ lit '' in a hot pan with oil until tender.'',
           lit ''3. Season to taste and serve beautifully.'']"
  by (simp add: preparation_steps_def extra_step_text_def steps_header_def lit_def
      numbered_step_def is_digit_def)

text \<open>
  C5, as amended. On the fallback path, for every ingredient list, the text is a
  headline and a note followed by the line \<open>Preparation Steps (step by step):\<close> and
  the three numbered lines of the template, the first of which embeds the
  comma-joined ingredient phrase; every input ingredient occurs in the text. When no
  ingredient and not the headline ingredient holds a line feed, these three lines are
  exactly the numbered steps of the section \<open>Preparation Steps\<close> of the text.
\<close>

theorem fallback_text_shape:
  assumes "credential_configured env" and "try_block_raises env data e" and "is_Exception e"
  shows "\<exists>text pre. fst (suggest_ai_recipe env data db) = Inr (Some text) \<and>
     text = pre @ steps_header @ [10] @
              concat (map (\<lambda>l. l @ [10]) (step_lines (str_join (lit '', '') data))) \<and>
     length (step_lines (str_join (lit '', '') data)) = 3 \<and>
     (\<forall>i\<in>set data. sublist i text) \<and>
     (list_all (\<lambda>i. 10 \<notin> set i) data \<and> 10 \<notin> set (main_ingredient env data) \<longrightarrow>
        preparation_steps text = Some (step_lines (str_join (lit '', '') data)))"
proof -
  let ?style = "random_choice (random_draw env) styles"
  let ?ui = "str_join (lit '', '') data"
  let ?text = "fallback_text ?style (main_ingredient env data) ?ui"
  let ?pre = "lit ''Recipe Name: '' @ ?style @ lit '' '' @ main_ingredient env data @
      lit '' (Local Chef Mode)'' @ [10, 10]
      @ lit ''Note: [AI Service Busy - Using Local Intelligence]'' @ [10, 10]"
  have r: "fst (suggest_ai_recipe env data db) = Inr (Some ?text)"
    by (simp add: suggest_fallback [OF assms] main_ingredient_def)
  have t: "?text = ?pre @ steps_header @ [10] @ concat (map (\<lambda>l. l @ [10]) (step_lines ?ui))"
    by (rule fallback_text_template)
  have n: "length (step_lines ?ui) = 3"
    by (simp add: step_lines_def)
  have s: "\<forall>i\<in>set data. sublist i ?text"
    by (intro ballI sublist_fallback_text sublist_str_join)
  have p: "preparation_steps ?text = Some (step_lines ?ui)"
    if "list_all (\<lambda>i. 10 \<notin> set i) data" and "10 \<notin> set (main_ingredient env data)"
  proof (rule preparation_steps_fallback)
    have "random_draw env mod 4 < 4" by simp
    then show "10 \<notin> set ?style"
      unfolding random_choice_styles by (rule styles_no_lf)
    show "10 \<notin> set (main_ingredient env data)" by (rule that(2))
    show "10 \<notin> set ?ui"
      using that(1) by (intro str_join_no_lf) (simp_all add: list_all_iff lit_def)
  qed
  from r t n s p show ?thesis by blast
qed

theorem fallback_text_shape_witness:
  "credential_configured (example_env 2) \<and>
   try_block_raises (example_env 2) [lit ''rice'', lit ''salt''] connection_error \<and>
   is_Exception connection_error \<and>
   list_all (\<lambda>i. 10 \<notin> set i) [lit ''rice'', lit ''salt''] \<and>
   10 \<notin> set (main_ingredient (example_env 2) [lit ''rice'', lit ''salt'']) \<and>
   fst (suggest_ai_recipe (example_env 2) [lit ''rice'', lit ''salt''] []) =
     Inr (Some gourmet_rice_text) \<and>
   sublist (lit ''rice'') gourmet_rice_text \<and> sublist (lit ''salt'') gourmet_rice_text \<and>
   preparation_steps gourmet_rice_text =
     Some [lit ''1. Prepare your rice, salt.'',
           lit ''2. Saut'' @ [233] @ lit '' in a hot pan with oil until tender.'',
           lit ''3. Season to taste and serve beautifully.'']"
proof -
  have h1: "list_all (\<lambda>i. 10 \<notin> set i) [lit ''rice'', lit ''salt'']"
    by (simp add: lit_def)
  have h2: "10 \<notin> set (main_ingredient (example_env 2) [lit ''rice'', lit ''salt''])"
    by (simp add: main_ingredient_def text_eval)
  from fallback_text_shape
    [OF example_env_configured example_env_raises connection_error_is_Exception,
     of 2 "[lit ''rice'', lit ''salt'']" "[]"]
  obtain tx where
    a: "fst (suggest_ai_recipe (example_env 2) [lit ''rice'', lit ''salt''] []) = Inr (Some tx)" and
    b: "\<forall>i\<in>set [lit ''rice'', lit ''salt'']. sublist i tx" and
    c: "list_all (\<lambda>i. 10 \<notin> set i) [lit ''rice'', lit ''salt''] \<and>
        10 \<notin> set (main_ingredient (example_env 2) [lit ''rice'', lit ''salt'']) \<longrightarrow>
        preparation_steps tx = Some (step_lines (str_join (lit '', '') [lit ''rice'', lit ''salt'']))"
    by blast
  from a have tx: "tx = gourmet_rice_text" by (simp add: suggest_gourmet)
  from c h1 h2 have "preparation_steps gourmet_rice_text =
      Some (step_lines (str_join (lit '', '') [lit ''rice'', lit ''salt'']))"
    by (simp add: tx)
  then have d: "preparation_steps gourmet_rice_text =
     Some [lit ''1. Prepare your rice, salt.'',
           lit ''2. Saut'' @ [233] @ lit '' in a hot pan with oil until tender.'',
           lit ''3. Season to taste and serve beautifully.'']"
    by (simp add: step_lines_def lit_def)
  from b have "sublist (lit ''rice'') gourmet_rice_text" "sublist (lit ''salt'') gourmet_rice_text"
    by (simp_all add: tx)
  with h1 h2 d show ?thesis
    using example_env_configured [of 2] example_env_raises [of 2 "[lit ''rice'', lit ''salt'']"]
      connection_error_is_Exception suggest_gourmet
    by simp
qed

text \<open>
  C5 as stated fails for an ingredient that holds a line feed: the joined phrase is
  embedded unchanged, so what follows the line feed starts a line of its own. With
  the ingredients \<open>rice\<close> and \<open>salt\n4. Eat\<close> the section has four numbered steps.
\<close>

theorem fallback_steps_counterexample:
  "credential_configured (example_env 0) \<and>
   try_block_raises (example_env 0) [lit ''rice'', lit ''salt'' @ [10] @ lit ''4. Eat'']
     connection_error \<and>
   is_Exception connection_error \<and>
   fst (suggest_ai_recipe (example_env 0) [lit ''rice'', lit ''salt'' @ [10] @ lit ''4. Eat''] [])
     = Inr (Some extra_step_text) \<and>
   preparation_steps extra_step_text =
     Some [lit ''1. Prepare your rice, salt'', lit ''4. Eat.'',
           lit ''2. Saut'' @ [233] @ lit '' in a hot pan with oil until tender.'',
           lit ''3. Season to taste and serve beautifully.''] \<and>
   length (the (preparation_steps extra_step_text)) = 4"
proof -
  have "fst (suggest_ai_recipe (example_env 0) [lit ''rice'', lit ''salt'' @ [10] @ lit ''4. Eat''] [])
     = Inr (Some extra_step_text)"
    unfolding suggest_fallback [OF example_env_configured example_env_raises connection_error_is_Exception]
    by (simp add: text_eval extra_step_text_def)
  then show ?thesis
    using example_env_configured [of 0] connection_error_is_Exception
      example_env_raises [of 0 "[lit ''rice'', lit ''salt'' @ [10] @ lit ''4. Eat'']"]
    by (simp add: preparation_steps_extra)
qed

text \<open>
  C6, as amended. For a fixed ingredient list the fallback text is determined by the
  style that \<open>random.choice\<close> draws from the four fixed styles: two invocations on the
  fallback path whose draws select the same style (under the same \<open>str.capitalize\<close>)
  return the same text, whatever the failure of the provider, the credential and the
  table; and the style of the text is one of the four.
\<close>

theorem fallback_determined_by_style:
  assumes "credential_configured env1" and "try_block_raises env1 data e1" and "is_Exception e1"
    and "credential_configured env2" and "try_block_raises env2 data e2" and "is_Exception e2"
    and "str_capitalize env1 = str_capitalize env2"
    and "random_draw env1 mod 4 = random_draw env2 mod 4"
  shows "fst (suggest_ai_recipe env1 data db1) = fst (suggest_ai_recipe env2 data db2) \<and>
         (\<exists>k<4. fst (suggest_ai_recipe env1 data db1) =
            Inr (Some (fallback_text (styles ! k) (main_ingredient env1 data)
                   (str_join (lit '', '') data))))"
proof -
  let ?k = "random_draw env1 mod 4"
  have t1: "fst (suggest_ai_recipe env1 data db1) =
      Inr (Some (fallback_text (styles ! ?k) (main_ingredient env1 data) (str_join (lit '', '') data)))"
    by (simp add: suggest_fallback [OF assms(1,2,3)] random_choice_styles main_ingredient_def)
  have t2: "fst (suggest_ai_recipe env2 data db2) =
      Inr (Some (fallback_text (styles ! ?k) (main_ingredient env2 data) (str_join (lit '', '') data)))"
    by (simp add: suggest_fallback [OF assms(4,5,6)] random_choice_styles assms(8)
        main_ingredient_def)
  have m: "main_ingredient env1 data = main_ingredient env2 data"
    by (simp only: main_ingredient_def assms(7))
  have k: "?k < 4" by simp
  from t1 t2 m have "fst (suggest_ai_recipe env1 data db1) = fst (suggest_ai_recipe env2 data db2)"
    by simp
  moreover from t1 k have "\<exists>k<4. fst (suggest_ai_recipe env1 data db1) =
      Inr (Some (fallback_text (styles ! k) (main_ingredient env1 data) (str_join (lit '', '') data)))"
    by blast
  ultimately show ?thesis by simp
qed

theorem fallback_determined_by_style_witness:
  "credential_configured (example_env 1) \<and>
   try_block_raises (example_env 1) [lit ''rice''] connection_error \<and>
   is_Exception connection_error \<and>
   credential_configured (no_choices_env 5) \<and>
   try_block_raises (no_choices_env 5) [lit ''rice''] index_error \<and>
   is_Exception index_error \<and>
   str_capitalize (example_env 1) = str_capitalize (no_choices_env 5) \<and>
   random_draw (example_env 1) mod 4 = random_draw (no_choices_env 5) mod 4 \<and>
   fst (suggest_ai_recipe (example_env 1) [lit ''rice''] []) =
     fst (suggest_ai_recipe (no_choices_env 5) [lit ''rice''] [soup_row]) \<and>
   fst (suggest_ai_recipe (example_env 1) [lit ''rice''] []) = Inr (Some pan_seared_rice_text)"
proof -
  have c: "str_capitalize (example_env 1) = str_capitalize (no_choices_env 5)"
    by (simp add: example_env_def no_choices_env_def)
  have d: "random_draw (example_env 1) mod 4 = random_draw (no_choices_env 5) mod 4"
    by (simp add: example_env_def no_choices_env_def)
  have t: "fst (suggest_ai_recipe (example_env 1) [lit ''rice''] []) = Inr (Some pan_seared_rice_text)"
    unfolding suggest_fallback [OF example_env_configured example_env_raises connection_error_is_Exception]
    by (simp add: text_eval pan_seared_rice_text_def)
  from fallback_determined_by_style
    [OF example_env_configured example_env_raises connection_error_is_Exception
        no_choices_env_configured no_choices_env_raises index_error_is_Exception c d,
     of "[lit ''rice'']" "[]" "[soup_row]"]
  have "fst (suggest_ai_recipe (example_env 1) [lit ''rice''] []) =
     fst (suggest_ai_recipe (no_choices_env 5) [lit ''rice''] [soup_row])"
    by simp
  with c d t show ?thesis
    using example_env_configured [of 1] example_env_raises [of 1 "[lit ''rice'']"]
      connection_error_is_Exception no_choices_env_configured [of 5]
      no_choices_env_raises [of 5 "[lit ''rice'']"] index_error_is_Exception
    by simp
qed

text \<open>
  C6 as stated fails: the style is drawn with \<open>random.choice\<close>, so two invocations
  with the same ingredient list, both on the fallback path, return different texts
  when their draws differ.
\<close>

theorem fallback_style_is_random:
  "credential_configured (example_env 0) \<and> credential_configured (example_env 1) \<and>
   try_block_raises (example_env 0) [lit ''rice''] connection_error \<and>
   try_block_raises (example_env 1) [lit ''rice''] connection_error \<and>
   is_Exception connection_error \<and>
   fst (suggest_ai_recipe (example_env 0) [lit ''rice''] []) \<noteq>
   fst (suggest_ai_recipe (example_env 1) [lit ''rice''] [])"
proof -
  have "fst (suggest_ai_recipe (example_env 0) [lit ''rice''] []) \<noteq>
        fst (suggest_ai_recipe (example_env 1) [lit ''rice''] [])"
    unfolding suggest_fallback [OF example_env_configured example_env_raises connection_error_is_Exception]
    by (simp add: text_eval)
  then show ?thesis
    using example_env_configured example_env_raises connection_error_is_Exception by simp
qed


end
